theory Spec2Isabelle
  imports Complex_Main
begin

section \<open>KnowledgeBase (src/knowledge/knowledge-base.ts)\<close>

text \<open>
  An \<open>AgentFinding\<close> is \<open>{ agent, timestamp, data }\<close>; the payload type is \<open>any\<close> in the
  source and a type parameter here.  The store is a \<open>Map<string, AgentFinding>\<close>, modelled
  as a partial map from the agent name.  \<open>Date.now()\<close> is an input of \<open>store\<close>.
\<close>

record 'a AgentFinding =
  agent :: string
  timestamp :: int
  data :: 'a

type_synonym 'a KnowledgeBase = "string \<rightharpoonup> 'a AgentFinding"

definition kb_empty :: "'a KnowledgeBase" where
  "kb_empty = Map.empty"


text \<open>\<open>get\<close> returns \<open>finding ? finding.data : null\<close>; \<open>null\<close> is \<open>None\<close>.\<close>

definition get :: "string \<Rightarrow> 'a KnowledgeBase \<Rightarrow> 'a option" where
  "get agentName storage =
     (case storage agentName of None \<Rightarrow> None | Some finding \<Rightarrow> Some (data finding))"

definition clear :: "'a KnowledgeBase \<Rightarrow> 'a KnowledgeBase" where
  "clear storage = Map.empty"

section \<open>QueryParser (src/nlp/queryParser.ts)\<close>

subsection \<open>Strings\<close>

text \<open>
  A question is a \<open>string\<close>; a character stands for a UTF-16 code unit below 256 (the
  Latin-1 range), read with \<open>of_char\<close>.  On that range \<open>toLowerCase\<close> adds 32 to the
  letters \<open>A\<close>..\<open>Z\<close> and to the capitals \<open>0xC0\<close>..\<open>0xDE\<close> (except the multiplication sign
  \<open>0xD7\<close>), and the white space of \<open>trim\<close> and of \<open>\s\<close> is tab, line feed, vertical tab,
  form feed, carriage return, space and the no-break space \<open>0xA0\<close>.
\<close>

definition isUpper :: "char \<Rightarrow> bool" where
  "isUpper c = (let n = (of_char c :: nat) in
     (65 \<le> n \<and> n \<le> 90) \<or> (192 \<le> n \<and> n \<le> 222 \<and> n \<noteq> 215))"

definition toLowerChar :: "char \<Rightarrow> char" where
  "toLowerChar c = (if isUpper c then char_of ((of_char c :: nat) + 32) else c)"

definition toLowerCase :: "string \<Rightarrow> string" where
  "toLowerCase s = map toLowerChar s"

definition isSpace :: "char \<Rightarrow> bool" where
  "isSpace c = (let n = (of_char c :: nat) in (9 \<le> n \<and> n \<le> 13) \<or> n = 32 \<or> n = 160)"

definition trim :: "string \<Rightarrow> string" where
  "trim s = rev (dropWhile isSpace (rev (dropWhile isSpace s)))"

text \<open>The class \<open>[a-zA-Z0-9_\-\.\/]\<close> of the capture groups.\<close>

definition isIdent :: "char \<Rightarrow> bool" where
  "isIdent c = (let n = (of_char c :: nat) in
     (97 \<le> n \<and> n \<le> 122) \<or> (65 \<le> n \<and> n \<le> 90) \<or> (48 \<le> n \<and> n \<le> 57) \<or>
     c = CHR ''_'' \<or> c = CHR ''-'' \<or> c = CHR ''.'' \<or> c = CHR ''/'')"

subsection \<open>The regular expressions of \<open>parse\<close>, with the matching order of JavaScript\<close>

text \<open>
  Only the constructs that the seven patterns use: literal text, \<open>\s+\<close> and \<open>[...]+\<close>
  (greedy), alternation (left alternative first), the greedy optional group \<open>(?:r)?\<close>,
  concatenation and the capture group.  \<open>rmatch r s\<close> lists, in the order in which a
  backtracking matcher tries them, the ways \<open>r\<close> matches a prefix of \<open>s\<close>: the text captured
  by the group (if it took part) and the rest of \<open>s\<close>.
\<close>

datatype cclass = Space | Ident

fun inClass :: "cclass \<Rightarrow> char \<Rightarrow> bool" where
  "inClass Space c = isSpace c"
| "inClass Ident c = isIdent c"

datatype regex =
    Lit string
  | Plus cclass
  | Alt regex regex
  | Opt regex
  | Seq regex regex
  | Group regex

fun rmatch :: "regex \<Rightarrow> string \<Rightarrow> (string option \<times> string) list" where
  "rmatch (Lit l) s = (if take (length l) s = l then [(None, drop (length l) s)] else [])"
| "rmatch (Plus k) s =
     map (\<lambda>n. (None, drop n s)) (rev [1..<Suc (length (takeWhile (inClass k) s))])"
| "rmatch (Alt a b) s = rmatch a s @ rmatch b s"
| "rmatch (Opt r) s = rmatch r s @ [(None, s)]"
| "rmatch (Seq a b) s =
     concat (map (\<lambda>(c1, s1).
        map (\<lambda>(c2, s2). (case c2 of None \<Rightarrow> c1 | Some t \<Rightarrow> Some t, s2)) (rmatch b s1))
      (rmatch a s))"
| "rmatch (Group r) s =
     map (\<lambda>(c, s'). (Some (take (length s - length s') s), s')) (rmatch r s)"

text \<open>
  \<open>s.match(re)\<close> without the \<open>g\<close> flag: the leftmost start at which \<open>re\<close> matches, and
  there the first way in the matcher's order.  The result is group 1 of the match array
  (\<open>None\<close> inside is \<open>undefined\<close>); outside, \<open>None\<close> is \<open>null\<close>.
\<close>

fun rsearch :: "regex \<Rightarrow> string \<Rightarrow> string option option" where
  "rsearch r [] = (case rmatch r [] of [] \<Rightarrow> None | (c, _) # _ \<Rightarrow> Some c)"
| "rsearch r (x # xs) =
     (case rmatch r (x # xs) of [] \<Rightarrow> rsearch r xs | (c, _) # _ \<Rightarrow> Some c)"

text \<open>\<open>a || b\<close> on two match results.\<close>

definition orElse :: "'a option \<Rightarrow> 'a option \<Rightarrow> 'a option" where
  "orElse a b = (case a of None \<Rightarrow> b | Some x \<Rightarrow> Some x)"

definition ws :: regex where
  "ws = Plus Space"

definition word :: regex where
  "word = Group (Plus Ident)"

definition ofInFor :: regex where
  "ofInFor = Opt (Alt (Seq ws (Lit ''of'')) (Alt (Seq ws (Lit ''in'')) (Seq ws (Lit ''for''))))"

definition depRe1 :: regex where
  "depRe1 = Seq (Alt (Lit ''dependencies'') (Lit ''imports'')) (Seq ofInFor (Seq ws word))"

definition depRe2 :: regex where
  "depRe2 = Seq (Lit ''what does'') (Seq ws (Seq word (Seq ws (Lit ''import''))))"

definition usageRe1 :: regex where
  "usageRe1 =
     Seq (Alt (Lit ''who calls'') (Alt (Lit ''usage of'')
            (Alt (Lit ''callers of'') (Lit ''references to''))))
         (Seq ws word)"

definition usageRe2 :: regex where
  "usageRe2 = Seq (Lit ''where is'') (Seq ws (Seq word (Seq ws (Lit ''used''))))"

definition historyRe1 :: regex where
  "historyRe1 =
     Seq (Alt (Lit ''history'') (Alt (Lit ''changes'') (Alt (Lit ''commits'') (Lit ''evolution''))))
         (Seq ofInFor (Seq ws word))"

definition historyRe2 :: regex where
  "historyRe2 = Seq (Lit ''who touched'') (Seq ws word)"

definition riskRe :: regex where
  "riskRe =
     Seq (Alt (Lit ''risks'') (Alt (Lit ''issues'')
            (Alt (Lit ''problems'') (Lit ''vulnerabilities''))))
         (Seq (Opt (Alt (Seq ws (Lit ''of'')) (Alt (Seq ws (Lit ''in'')) (Seq ws (Lit ''with'')))))
              (Seq ws word))"

definition explainRe :: regex where
  "explainRe =
     Seq (Alt (Lit ''explain'') (Alt (Lit ''document'')
            (Alt (Lit ''describe'') (Lit ''complexity of''))))
         (Seq ws word)"

subsection \<open>\<open>QueryParser.parse\<close>\<close>

datatype intent = DEPENDENCIES | USAGE | HISTORY | RISKS | EXPLAIN

record ParsedQuery =
  intent :: intent
  target :: string
  confidence :: real

text \<open>
  \<open>m[1]\<close> of a match array.  Group 1 takes part in every match of the seven patterns
  (lemma \<open>rsearch_group\<close> below), so the \<open>undefined\<close> branch is never taken.
\<close>

definition group1 :: "string option \<Rightarrow> string" where
  "group1 m = (case m of None \<Rightarrow> [] | Some t \<Rightarrow> t)"

definition hit :: "intent \<Rightarrow> string option \<Rightarrow> ParsedQuery" where
  "hit i m = \<lparr>intent = i, target = group1 m, confidence = 9 / 10\<rparr>"

definition parse :: "string \<Rightarrow> ParsedQuery option" where
  "parse question =
     (let normalized = trim (toLowerCase question) in
      case orElse (rsearch depRe1 normalized) (rsearch depRe2 normalized) of
        Some depMatch \<Rightarrow> Some (hit DEPENDENCIES depMatch)
      | None \<Rightarrow>
      (case orElse (rsearch usageRe1 normalized) (rsearch usageRe2 normalized) of
        Some usageMatch \<Rightarrow> Some (hit USAGE usageMatch)
      | None \<Rightarrow>
      (case orElse (rsearch historyRe1 normalized) (rsearch historyRe2 normalized) of
        Some historyMatch \<Rightarrow> Some (hit HISTORY historyMatch)
      | None \<Rightarrow>
      (case rsearch riskRe normalized of
        Some riskMatch \<Rightarrow> Some (hit RISKS riskMatch)
      | None \<Rightarrow>
      (case rsearch explainRe normalized of
        Some explainMatch \<Rightarrow> Some (hit EXPLAIN explainMatch)
      | None \<Rightarrow> None)))))"

text \<open>Whether every match of a pattern sets group 1.\<close>

fun captures :: "regex \<Rightarrow> bool" where
  "captures (Lit l) = False"
| "captures (Plus k) = False"
| "captures (Alt a b) = (captures a \<and> captures b)"
| "captures (Opt r) = False"
| "captures (Seq a b) = (captures a \<or> captures b)"
| "captures (Group r) = True"

section \<open>ArchitectAgent.findCycles (src/agents/architect.ts)\<close>

text \<open>
  A \<open>Dependency\<close> is \<open>{ from, to, type: 'IMPORTS' }\<close>; the type has one value and is left
  out.  The adjacency \<open>Map<string, string[]>\<close> keeps its keys in insertion order and is an
  association list with one entry for each key.
\<close>

record Dependency =
  dep_from :: string
  dep_to :: string

type_synonym adjacency = "(string \<times> string list) list"

text \<open>One round of the loop that builds the adjacency list.\<close>

definition addDep :: "adjacency \<Rightarrow> Dependency \<Rightarrow> adjacency" where
  "addDep graph dep =
     (let graph1 = (if map_of graph (dep_from dep) = None
                    then graph @ [(dep_from dep, [])] else graph)
      in map (\<lambda>(k, v). if k = dep_from dep then (k, v @ [dep_to dep]) else (k, v)) graph1)"

definition buildAdjacency :: "Dependency list \<Rightarrow> adjacency" where
  "buildAdjacency dependencies = foldl addDep [] dependencies"

text \<open>\<open>graph.get(node) || []\<close>\<close>

definition neighbors :: "adjacency \<Rightarrow> string \<Rightarrow> string list" where
  "neighbors graph node = (case map_of graph node of None \<Rightarrow> [] | Some ns \<Rightarrow> ns)"

text \<open>\<open>Array.prototype.indexOf\<close> (\<open>-1\<close> when absent) and \<open>slice(start)\<close>.\<close>

fun indexOf :: "'a list \<Rightarrow> 'a \<Rightarrow> int" where
  "indexOf [] x = - 1"
| "indexOf (y # ys) x =
     (if y = x then 0 else (let i = indexOf ys x in if i < 0 then - 1 else i + 1))"

definition slice :: "'a list \<Rightarrow> int \<Rightarrow> 'a list" where
  "slice xs start =
     (let n = int (length xs);
          k = (if start < 0 then max (n + start) 0 else min start n)
      in drop (nat k) xs)"

text \<open>The three variables that the closure \<open>visit\<close> shares and updates.\<close>

record dfs_state =
  cycles :: "string list list"
  visited :: "string set"
  recursionStack :: "string set"

text \<open>
  \<open>visit(node, path)\<close>; \<open>visitNeighbors\<close> is its \<open>for\<close> loop over the neighbours that are
  left, with \<open>path\<close> already holding \<open>node\<close>.  A recursive call gets the copy \<open>[...path]\<close>, so
  \<open>path\<close> is a value here.
\<close>

function visit :: "adjacency \<Rightarrow> string \<Rightarrow> string list \<Rightarrow> dfs_state \<Rightarrow> dfs_state"
  and visitNeighbors :: "adjacency \<Rightarrow> string list \<Rightarrow> string list \<Rightarrow> dfs_state \<Rightarrow> dfs_state"
where
  "visit graph node path s =
     (let s' = visitNeighbors graph (path @ [node]) (neighbors graph node)
                 (s\<lparr>visited := insert node (visited s),
                    recursionStack := insert node (recursionStack s)\<rparr>)
      in s'\<lparr>recursionStack := recursionStack s' - {node}\<rparr>)"
| "visitNeighbors graph path [] s = s"
| "visitNeighbors graph path (neighbor # rest) s =
     (if neighbor \<notin> visited s
      then visitNeighbors graph path rest (visit graph neighbor path s)
      else if neighbor \<in> recursionStack s
      then visitNeighbors graph path rest
             (s\<lparr>cycles := cycles s @ [slice path (indexOf path neighbor) @ [neighbor]]\<rparr>)
      else visitNeighbors graph path rest s)"
  by pat_completeness auto

text \<open>
  Termination of the search.  Every call of \<open>visit\<close> from the loop marks a node that was
  not marked before, and the marks are never removed; so the number of unmarked nodes
  (of the graph, of the neighbours still to do and the node at hand) goes down with every
  such call, and in between the list of neighbours still to do gets shorter.
\<close>

definition nodesOf :: "adjacency \<Rightarrow> string set" where
  "nodesOf graph = set (map fst graph) \<union> (\<Union>ns \<in> set (map snd graph). set ns)"

lemma finite_nodesOf: "finite (nodesOf graph)"
  by (simp add: nodesOf_def)

lemma neighbors_nodesOf: "set (neighbors graph node) \<subseteq> nodesOf graph"
proof
  fix x assume "x \<in> set (neighbors graph node)"
  then obtain ns where "map_of graph node = Some ns" and x: "x \<in> set ns"
    by (cases "map_of graph node") (auto simp: neighbors_def)
  then have "(node, ns) \<in> set graph" by (simp add: map_of_SomeD)
  then have "ns \<in> set (map snd graph)" by force
  with x show "x \<in> nodesOf graph" unfolding nodesOf_def by blast
qed

lemma visited_mono_dom:
  "visit_visitNeighbors_dom (Inl (graph, node, path, s)) \<Longrightarrow>
     visited s \<subseteq> visited (visit graph node path s)"
  "visit_visitNeighbors_dom (Inr (graph, path, ns, s)) \<Longrightarrow>
     visited s \<subseteq> visited (visitNeighbors graph path ns s)"
proof (induction graph node path s and graph path ns s rule: visit_visitNeighbors.pinduct)
  case (1 graph node path s)
  then show ?case by (auto simp: visit.psimps Let_def)
next
  case (2 graph path s)
  then show ?case by (simp add: visitNeighbors.psimps)
next
  case (3 graph path neighbor rest s)
  then show ?case by (auto simp: visitNeighbors.psimps split: if_splits)
qed

definition todo :: "adjacency \<times> string \<times> string list \<times> dfs_state +
    adjacency \<times> string list \<times> string list \<times> dfs_state \<Rightarrow> nat" where
  "todo a = (case a of
      Inl (graph, node, path, s) \<Rightarrow> card (nodesOf graph - insert node (visited s))
    | Inr (graph, path, ns, s) \<Rightarrow> card ((nodesOf graph \<union> set ns) - visited s))"

definition frame :: "adjacency \<times> string \<times> string list \<times> dfs_state +
    adjacency \<times> string list \<times> string list \<times> dfs_state \<Rightarrow> nat" where
  "frame a = (case a of Inl _ \<Rightarrow> 1 | Inr _ \<Rightarrow> 0)"

definition left :: "adjacency \<times> string \<times> string list \<times> dfs_state +
    adjacency \<times> string list \<times> string list \<times> dfs_state \<Rightarrow> nat" where
  "left a = (case a of Inl _ \<Rightarrow> 0 | Inr (graph, path, ns, s) \<Rightarrow> length ns)"

termination visit
proof (relation "measures [todo, frame, left]")
  show "wf (measures [todo, frame, left])" by simp
next
  fix graph node path and s :: dfs_state
  have "nodesOf graph \<union> set (neighbors graph node) = nodesOf graph"
    using neighbors_nodesOf by blast
  then show "(Inr (graph, path @ [node], neighbors graph node,
           s\<lparr>visited := insert node (visited s),
              recursionStack := insert node (recursionStack s)\<rparr>),
        Inl (graph, node, path, s)) \<in> measures [todo, frame, left]"
    by (simp add: todo_def frame_def)
next
  fix graph path neighbor rest and s :: dfs_state
  assume n: "neighbor \<notin> visited s"
  have "nodesOf graph - insert neighbor (visited s)
        \<subset> (nodesOf graph \<union> set (neighbor # rest)) - visited s"
    using n by auto
  then have "card (nodesOf graph - insert neighbor (visited s))
        < card ((nodesOf graph \<union> set (neighbor # rest)) - visited s)"
    by (intro psubset_card_mono) (simp_all add: finite_nodesOf)
  then show "(Inl (graph, neighbor, path, s), Inr (graph, path, neighbor # rest, s))
        \<in> measures [todo, frame, left]"
    by (simp add: todo_def)
next
  fix graph path neighbor rest and s :: dfs_state
  assume n: "neighbor \<notin> visited s"
    and d: "visit_visitNeighbors_dom (Inl (graph, neighbor, path, s))"
  have "(nodesOf graph \<union> set rest) - visited (visit graph neighbor path s)
        \<subseteq> (nodesOf graph \<union> set (neighbor # rest)) - visited s"
    using visited_mono_dom(1)[OF d] by auto
  then have "card ((nodesOf graph \<union> set rest) - visited (visit graph neighbor path s))
        \<le> card ((nodesOf graph \<union> set (neighbor # rest)) - visited s)"
    by (intro card_mono) (simp_all add: finite_nodesOf)
  then show "(Inr (graph, path, rest, visit graph neighbor path s),
         Inr (graph, path, neighbor # rest, s)) \<in> measures [todo, frame, left]"
    by (auto simp: todo_def frame_def left_def)
next
  fix graph path neighbor rest and s :: dfs_state
  have "card ((nodesOf graph \<union> set rest) - visited s)
        \<le> card ((nodesOf graph \<union> set (neighbor # rest)) - visited s)"
    by (intro card_mono) (auto simp: finite_nodesOf)
  then show "(Inr (graph, path, rest,
           s\<lparr>cycles := cycles s @ [slice path (indexOf path neighbor) @ [neighbor]]\<rparr>),
         Inr (graph, path, neighbor # rest, s)) \<in> measures [todo, frame, left]"
    by (auto simp: todo_def frame_def left_def)
next
  fix graph path neighbor rest and s :: dfs_state
  have "card ((nodesOf graph \<union> set rest) - visited s)
        \<le> card ((nodesOf graph \<union> set (neighbor # rest)) - visited s)"
    by (intro card_mono) (auto simp: finite_nodesOf)
  then show "(Inr (graph, path, rest, s),
         Inr (graph, path, neighbor # rest, s)) \<in> measures [todo, frame, left]"
    by (auto simp: todo_def frame_def left_def)
qed

text \<open>\<open>findCycles\<close>: the search is started from every key of the map that is not yet marked.\<close>

definition findCycles :: "Dependency list \<Rightarrow> string list list" where
  "findCycles dependencies =
     (let graph = buildAdjacency dependencies
      in cycles (foldl (\<lambda>s node. if node \<notin> visited s then visit graph node [] s else s)
           \<lparr>cycles = [], visited = {}, recursionStack = {}\<rparr> (map fst graph)))"

text \<open>The edges of an adjacency list, as a relation.\<close>

definition edgesOf :: "adjacency \<Rightarrow> (string \<times> string) set" where
  "edgesOf graph = {(a, b). b \<in> set (neighbors graph a)}"

section \<open>Knowledge Graph\<close>

text \<open>
  Modelled from the spec: the class \<open>KnowledgeGraph\<close> (\<open>graph/knowledgeGraph.ts\<close>) is not
  among the sources; sections 3 and 4.1 of the specification describe it.  A node is
  \<open>{ id, type, data }\<close>.  \<open>buildKnowledgeGraph\<close> creates nodes in three shapes only,
  \<open>{id, type: 'File', data: {path}}\<close>, \<open>{id, type: 'Folder', data: {path}}\<close> and
  \<open>{id, type: 'Function', data: func}\<close> with \<open>func\<close> the record of the extraction interface
  (section 6), so type and data are one tagged value here.
\<close>

datatype NodeType = File | Folder | Function

datatype EdgeType = IMPORTS | DEFINES | CALLS

record FunctionInfo =
  fn_id :: string
  fn_name :: string
  fn_file :: string
  fn_startLine :: nat
  fn_calls :: "string list"

datatype NodeData = FileData string | FolderData string | FunctionData FunctionInfo

record Node =
  node_id :: string
  node_data :: NodeData

fun typeOfData :: "NodeData \<Rightarrow> NodeType" where
  "typeOfData (FileData p) = File"
| "typeOfData (FolderData p) = Folder"
| "typeOfData (FunctionData f) = Function"

definition node_type :: "Node \<Rightarrow> NodeType" where
  "node_type n = typeOfData (node_data n)"

text \<open>\<open>node.data.path\<close>, \<open>node.data.name\<close> and \<open>node.data.file\<close>; \<open>None\<close> is \<open>undefined\<close>.\<close>

fun dataPath :: "NodeData \<Rightarrow> string option" where
  "dataPath (FileData p) = Some p"
| "dataPath (FolderData p) = Some p"
| "dataPath (FunctionData f) = None"

fun dataName :: "NodeData \<Rightarrow> string option" where
  "dataName (FunctionData f) = Some (fn_name f)"
| "dataName d = None"

fun dataFile :: "NodeData \<Rightarrow> string option" where
  "dataFile (FunctionData f) = Some (fn_file f)"
| "dataFile d = None"

record Edge =
  edge_from :: string
  edge_to :: string
  edge_type :: EdgeType

text \<open>
  The nodes are kept in insertion order, one for each id; the edges in insertion order,
  duplicates and dangling ends included.
\<close>

record KnowledgeGraph =
  nodes :: "Node list"
  edges :: "Edge list"

definition emptyGraph :: KnowledgeGraph where
  "emptyGraph = \<lparr>nodes = [], edges = []\<rparr>"

text \<open>\<open>addNode\<close> inserts, or overwrites the node that has the same id (in its place).\<close>

definition addNode :: "Node \<Rightarrow> KnowledgeGraph \<Rightarrow> KnowledgeGraph" where
  "addNode n g =
     (if node_id n \<in> set (map node_id (nodes g))
      then g\<lparr>nodes := map (\<lambda>m. if node_id m = node_id n then n else m) (nodes g)\<rparr>
      else g\<lparr>nodes := nodes g @ [n]\<rparr>)"

definition addEdge :: "Edge \<Rightarrow> KnowledgeGraph \<Rightarrow> KnowledgeGraph" where
  "addEdge e g = g\<lparr>edges := edges g @ [e]\<rparr>"

definition getNode :: "KnowledgeGraph \<Rightarrow> string \<Rightarrow> Node option" where
  "getNode g i = find (\<lambda>n. node_id n = i) (nodes g)"

definition getNodesByType :: "KnowledgeGraph \<Rightarrow> NodeType \<Rightarrow> Node list" where
  "getNodesByType g t = filter (\<lambda>n. node_type n = t) (nodes g)"

definition getOutgoingEdges :: "KnowledgeGraph \<Rightarrow> string \<Rightarrow> Edge list" where
  "getOutgoingEdges g i = filter (\<lambda>e. edge_from e = i) (edges g)"

definition getIncomingEdges :: "KnowledgeGraph \<Rightarrow> string \<Rightarrow> Edge list" where
  "getIncomingEdges g i = filter (\<lambda>e. edge_to e = i) (edges g)"

definition getNodeCount :: "KnowledgeGraph \<Rightarrow> nat" where
  "getNodeCount g = length (nodes g)"

definition getEdgeCount :: "KnowledgeGraph \<Rightarrow> nat" where
  "getEdgeCount g = length (edges g)"

section \<open>Graph Queries\<close>

text \<open>
  Modelled from the spec: the class \<open>GraphQueries\<close> (\<open>queries/graphQueries.ts\<close>) is not among
  the sources.  Section 4.2 of the specification gives \<open>findFunctionByName\<close> and
  \<open>functionBlastRadius\<close> in full; they are written out here from its words.
\<close>

text \<open>
  \<open>findFunctionByName(name)\<close>: exact, case-sensitive match over the \<open>data.name\<close> of the
  Function nodes, all matches in node-insertion order.
\<close>

definition findFunctionByName :: "KnowledgeGraph \<Rightarrow> string \<Rightarrow> Node list" where
  "findFunctionByName g name =
     filter (\<lambda>n. dataName (node_data n) = Some name) (getNodesByType g Function)"

text \<open>
  \<open>functionBlastRadius(functionId)\<close>: breadth-first traversal over CALLS edges in the
  incoming direction, starting from \<open>functionId\<close>, with a set of visited ids.  The queue
  holds an id with its level; \<open>affected\<close> is the discovery order without the start node,
  \<open>maxDepth\<close> the greatest level reached.
\<close>

record bfs_state =
  seen :: "string set"
  queue :: "(string \<times> nat) list"
  affected :: "string list"
  maxDepth :: nat

text \<open>The ids that call \<open>i\<close>: the sources of its incoming CALLS edges, in edge order.\<close>

definition callersOf :: "KnowledgeGraph \<Rightarrow> string \<Rightarrow> string list" where
  "callersOf g i = map edge_from (filter (\<lambda>e. edge_type e = CALLS) (getIncomingEdges g i))"

fun enqueueCallers :: "string list \<Rightarrow> nat \<Rightarrow> bfs_state \<Rightarrow> bfs_state" where
  "enqueueCallers [] level s = s"
| "enqueueCallers (c # cs) level s =
     enqueueCallers cs level
       (if c \<in> seen s then s
        else s\<lparr>seen := insert c (seen s),
               queue := queue s @ [(c, level + 1)],
               affected := affected s @ [c],
               maxDepth := max (maxDepth s) (level + 1)\<rparr>)"

text \<open>
  Termination of the traversal: an id enters the queue only when it is marked as seen, and
  every such id is the source of an edge; so the number of unseen edge sources plus the
  length of the queue goes down by one with every id taken from the queue.
\<close>

definition sourcesOf :: "KnowledgeGraph \<Rightarrow> string set" where
  "sourcesOf g = set (map edge_from (edges g))"

lemma finite_sourcesOf: "finite (sourcesOf g)"
  by (simp add: sourcesOf_def)

lemma callersOf_sources: "set (callersOf g i) \<subseteq> sourcesOf g"
  by (auto simp: callersOf_def sourcesOf_def getIncomingEdges_def)

lemma enqueueCallers_budget:
  fixes s :: bfs_state
  assumes "finite U" and "set cs \<subseteq> U"
  shows "card (U - seen (enqueueCallers cs level s)) + length (queue (enqueueCallers cs level s))
         = card (U - seen s) + length (queue s)"
  using assms(2)
proof (induction cs arbitrary: s)
  case Nil
  then show ?case by simp
next
  case (Cons c cs)
  show ?case
  proof (cases "c \<in> seen s")
    case True
    with Cons show ?thesis by simp
  next
    case False
    let ?s = "s\<lparr>seen := insert c (seen s), queue := queue s @ [(c, level + 1)],
        affected := affected s @ [c], maxDepth := max (maxDepth s) (level + 1)\<rparr>"
    from Cons.prems False have c: "c \<in> U - seen s" by simp
    have "U - seen ?s = (U - seen s) - {c}" by auto
    then have "card (U - seen ?s) = card (U - seen s) - 1"
      using c assms(1) by (simp only: card_Diff_singleton[OF c])
    moreover have "card (U - seen s) > 0"
      using c assms(1) by (metis card_gt_0_iff empty_iff finite_Diff)
    ultimately have 1: "card (U - seen ?s) + 1 = card (U - seen s)" by arith
    have 2: "length (queue ?s) = length (queue s) + 1" by simp
    have 3: "enqueueCallers (c # cs) level s = enqueueCallers cs level ?s"
      using False by simp
    from Cons.prems have "set cs \<subseteq> U" by simp
    from Cons.IH[OF this, of ?s]
    have 4: "card (U - seen (enqueueCallers cs level ?s))
        + length (queue (enqueueCallers cs level ?s)) = card (U - seen ?s) + length (queue ?s)" .
    show ?thesis unfolding 3 using 1 2 4 by arith
  qed
qed

function bfs :: "KnowledgeGraph \<Rightarrow> bfs_state \<Rightarrow> bfs_state" where
  "bfs g s =
     (case queue s of
        [] \<Rightarrow> s
      | (current, level) # rest \<Rightarrow>
          bfs g (enqueueCallers (callersOf g current) level (s\<lparr>queue := rest\<rparr>)))"
  by pat_completeness auto
termination
proof (relation "measure (\<lambda>(g, s). card (sourcesOf g - seen s) + length (queue s))")
  show "wf (measure (\<lambda>(g, s). card (sourcesOf g - seen s) + length (queue s)))" by simp
next
  fix g and s :: bfs_state and x rest current level
  assume q: "queue s = x # rest" and "(current, level) = x"
  have "card (sourcesOf g - seen (enqueueCallers (callersOf g current) level (s\<lparr>queue := rest\<rparr>)))
      + length (queue (enqueueCallers (callersOf g current) level (s\<lparr>queue := rest\<rparr>)))
      = card (sourcesOf g - seen (s\<lparr>queue := rest\<rparr>)) + length (queue (s\<lparr>queue := rest\<rparr>))"
    by (rule enqueueCallers_budget) (simp_all add: finite_sourcesOf callersOf_sources)
  with q show "((g, enqueueCallers (callersOf g current) level (s\<lparr>queue := rest\<rparr>)), (g, s))
      \<in> measure (\<lambda>(g, s). card (sourcesOf g - seen s) + length (queue s))"
    by simp
qed

declare bfs.simps [simp del]

lemma bfs_done: "queue s = [] \<Longrightarrow> bfs g s = s"
  by (subst bfs.simps) simp

lemma bfs_step:
  "queue s = (current, level) # rest \<Longrightarrow>
     bfs g s = bfs g (enqueueCallers (callersOf g current) level (s\<lparr>queue := rest\<rparr>))"
  by (subst bfs.simps) simp

text \<open>The elements of a JavaScript \<open>Set\<close> built by adding \<open>xs\<close> in order.\<close>

definition setOrder :: "'a list \<Rightarrow> 'a list" where
  "setOrder xs = rev (remdups (rev xs))"

record BlastRadius =
  affectedFunctions :: "string list"
  affectedFiles :: "string list"
  depth :: nat

text \<open>An unknown \<open>functionId\<close> gives the empty result, not an error.\<close>

definition functionBlastRadius :: "KnowledgeGraph \<Rightarrow> string \<Rightarrow> BlastRadius" where
  "functionBlastRadius g functionId =
     (case getNode g functionId of
        None \<Rightarrow> \<lparr>affectedFunctions = [], affectedFiles = [], depth = 0\<rparr>
      | Some start \<Rightarrow>
          (let s = bfs g \<lparr>seen = {functionId}, queue = [(functionId, 0)],
                         affected = [], maxDepth = 0\<rparr>
           in \<lparr>affectedFunctions = affected s,
               affectedFiles = setOrder (List.map_filter
                  (\<lambda>i. case getNode g i of None \<Rightarrow> None | Some n \<Rightarrow> dataFile (node_data n))
                  (affected s)),
               depth = maxDepth s\<rparr>))"

text \<open>
  The graph of the specification's example: three Function nodes \<open>A\<close>, \<open>B\<close>, \<open>C\<close> (defined in
  one file), where \<open>A\<close> calls \<open>B\<close> and \<open>B\<close> calls \<open>C\<close>; and the same graph with the call
  \<open>C \<rightarrow> A\<close> added, which closes a cycle.
\<close>

definition functionNode :: "string \<Rightarrow> string \<Rightarrow> Node" where
  "functionNode i f =
     \<lparr>node_id = i,
      node_data = FunctionData
        \<lparr>fn_id = i, fn_name = i, fn_file = f, fn_startLine = 1, fn_calls = []\<rparr>\<rparr>"

definition callEdge :: "string \<Rightarrow> string \<Rightarrow> Edge" where
  "callEdge a b = \<lparr>edge_from = a, edge_to = b, edge_type = CALLS\<rparr>"

definition callChain :: KnowledgeGraph where
  "callChain =
     addEdge (callEdge ''B'' ''C'') (addEdge (callEdge ''A'' ''B'')
       (addNode (functionNode ''C'' ''f.ts'') (addNode (functionNode ''B'' ''f.ts'')
         (addNode (functionNode ''A'' ''f.ts'') emptyGraph))))"

definition callCycle :: KnowledgeGraph where
  "callCycle = addEdge (callEdge ''C'' ''A'') callChain"

section \<open>Building the graph (\<open>buildKnowledgeGraph\<close>, in src/nlp/queryParser.ts)\<close>

text \<open>\<open>String.prototype.endsWith\<close> and \<open>String.prototype.includes\<close>.\<close>

definition endsWith :: "string \<Rightarrow> string \<Rightarrow> bool" where
  "endsWith s suffix = (take (length suffix) (rev s) = rev suffix)"

fun includesStr :: "string \<Rightarrow> string \<Rightarrow> bool" where
  "includesStr [] sub = (sub = [])"
| "includesStr (x # xs) sub = (take (length sub) (x # xs) = sub \<or> includesStr xs sub)"

text \<open>
  The test of the filter, \<open>f.data.name === call || f.id.includes(`::${call}`)\<close>.
\<close>

definition callMatches :: "string \<Rightarrow> Node \<Rightarrow> bool" where
  "callMatches call f =
     (dataName (node_data f) = Some call \<or> includesStr (node_id f) (''::'' @ call))"

text \<open>
  The body of \<open>for (const call of func.calls)\<close>: the Function nodes of the graph that pass
  the test; if there is one, a CALLS edge to the first.
\<close>

definition addCall :: "string \<Rightarrow> string \<Rightarrow> KnowledgeGraph \<Rightarrow> KnowledgeGraph" where
  "addCall funcId call g =
     (let calledFunctions = filter (callMatches call) (getNodesByType g Function)
      in case calledFunctions of
           [] \<Rightarrow> g
         | first # others \<Rightarrow>
             addEdge \<lparr>edge_from = funcId, edge_to = node_id first, edge_type = CALLS\<rparr> g)"

text \<open>The body of \<open>for (const func of functions)\<close>.\<close>

definition addFunction :: "string \<Rightarrow> FunctionInfo \<Rightarrow> KnowledgeGraph \<Rightarrow> KnowledgeGraph" where
  "addFunction file func g =
     fold (addCall (fn_id func)) (fn_calls func)
       (addEdge \<lparr>edge_from = file, edge_to = fn_id func, edge_type = DEFINES\<rparr>
         (addNode \<lparr>node_id = fn_id func, node_data = FunctionData func\<rparr> g))"

text \<open>
  The body of \<open>for (const file of metadata.files)\<close>.  The two extractors are collaborators
  outside the sources and are parameters; \<open>None\<close> is an extraction that throws, which the
  \<open>catch\<close> of the loop body turns into a warning.  A file is given to the Python extractor
  if its name ends with \<open>.py\<close>, to the JavaScript extractor if it matches
  \<open>/\.(js|ts|jsx|tsx)$/\<close>, and is skipped otherwise.
\<close>

type_synonym extractor = "string \<Rightarrow> FunctionInfo list option"

definition extractFile :: "extractor \<Rightarrow> extractor \<Rightarrow> string \<Rightarrow> KnowledgeGraph \<Rightarrow> KnowledgeGraph" where
  "extractFile pythonExtractor jsExtractor file g =
     (if endsWith file ''.py'' then
        (case pythonExtractor file of
           None \<Rightarrow> g
         | Some functions \<Rightarrow> fold (addFunction file) functions g)
      else if endsWith file ''.js'' \<or> endsWith file ''.ts'' \<or> endsWith file ''.jsx''
             \<or> endsWith file ''.tsx'' then
        (case jsExtractor file of
           None \<Rightarrow> g
         | Some functions \<Rightarrow> fold (addFunction file) functions g)
      else g)"

text \<open>
  Step 3 and 4 of \<open>buildKnowledgeGraph\<close>: nodes for the files and folders of the
  archaeologist's finding, IMPORTS edges for the detective's, then the functions of every
  file.  A finding that is absent (\<open>None\<close>) skips its step.
\<close>

record WorkspaceMetadata =
  files :: "string list"
  folders :: "string list"

definition populateGraph ::
  "WorkspaceMetadata option \<Rightarrow> Dependency list option \<Rightarrow> extractor \<Rightarrow> extractor \<Rightarrow>
     KnowledgeGraph \<Rightarrow> KnowledgeGraph" where
  "populateGraph metadata dependencies pythonExtractor jsExtractor g =
     (let g1 = (case metadata of
                  None \<Rightarrow> g
                | Some m \<Rightarrow>
                    fold (\<lambda>folder. addNode \<lparr>node_id = folder, node_data = FolderData folder\<rparr>)
                      (folders m)
                      (fold (\<lambda>file. addNode \<lparr>node_id = file, node_data = FileData file\<rparr>)
                        (files m) g));
          g2 = (case dependencies of
                  None \<Rightarrow> g1
                | Some deps \<Rightarrow>
                    fold (\<lambda>dep. addEdge \<lparr>edge_from = dep_from dep, edge_to = dep_to dep,
                                           edge_type = IMPORTS\<rparr>) deps g1)
      in case metadata of
           None \<Rightarrow> g2
         | Some m \<Rightarrow> fold (extractFile pythonExtractor jsExtractor) (files m) g2)"

text \<open>
  The reading of the specification for the call resolution: a node matches a call name
  when its \<open>data.name\<close> is the name or its id ends with the namespace separator followed by
  the name.
\<close>

definition specCallMatches :: "string \<Rightarrow> Node \<Rightarrow> bool" where
  "specCallMatches call f =
     (dataName (node_data f) = Some call \<or> endsWith (node_id f) (''::'' @ call))"

text \<open>
  A graph with the single function \<open>foobar\<close> of \<open>a.ts\<close>, and a second function of that file
  whose body calls \<open>foo\<close>.
\<close>

definition foobarGraph :: KnowledgeGraph where
  "foobarGraph =
     addFunction ''a.ts''
       \<lparr>fn_id = ''a.ts::foobar'', fn_name = ''foobar'', fn_file = ''a.ts'',
        fn_startLine = 1, fn_calls = []\<rparr> emptyGraph"

definition callerInfo :: FunctionInfo where
  "callerInfo =
     \<lparr>fn_id = ''a.ts::caller'', fn_name = ''caller'', fn_file = ''a.ts'',
      fn_startLine = 9, fn_calls = [''foo'']\<rparr>"

text \<open>
  A graph with the functions \<open>one\<close> and \<open>on\<close> of \<open>a.ts\<close>, extracted in this order, and a third
  function of that file whose body calls \<open>on\<close>.
\<close>

definition oneOnGraph :: KnowledgeGraph where
  "oneOnGraph =
     addFunction ''a.ts''
       \<lparr>fn_id = ''a.ts::on'', fn_name = ''on'', fn_file = ''a.ts'',
        fn_startLine = 5, fn_calls = []\<rparr>
       (addFunction ''a.ts''
          \<lparr>fn_id = ''a.ts::one'', fn_name = ''one'', fn_file = ''a.ts'',
           fn_startLine = 1, fn_calls = []\<rparr> emptyGraph)"

definition onCaller :: FunctionInfo where
  "onCaller =
     \<lparr>fn_id = ''a.ts::caller'', fn_name = ''caller'', fn_file = ''a.ts'',
      fn_startLine = 9, fn_calls = [''on'']\<rparr>"

section \<open>GeminiClient (src/unnamed/part_000)\<close>

text \<open>
  The language model is reached through \<open>genAI.models.generateContent\<close>, an outside
  service.  It is a function of the prompt here: \<open>Inl message\<close> is a call that throws,
  \<open>Inr t\<close> a call that returns with \<open>result.text = t\<close> (\<open>None\<close> is \<open>undefined\<close>).  The two
  prompts are template strings over the arguments of \<open>explainResult\<close> and of
  \<open>answerCodebaseQuestion\<close>; a prompt is represented by these arguments.
\<close>

record CentralityEntry =
  functionId :: string
  centrality :: nat
  inDegree :: nat
  outDegree :: nat

record ImportanceEntry =
  fileId :: string
  importance :: real
  functionCount :: nat

record FoundFunction =
  found_id :: string
  found_name :: "string option"
  found_file :: "string option"
  found_startLine :: "nat option"

text \<open>The shapes of \<open>metadata\<close> that the handlers of the orchestrator build.\<close>

datatype Metadata =
    MetaError string
  | MetaWarning string
  | MetaBlastRadius string nat nat
  | MetaCentral "CentralityEntry list"
  | MetaImportant "ImportanceEntry list"
  | MetaFound "FoundFunction list"
  | MetaDependencies nat "string list"
  | MetaUsage nat "string list"

datatype prompt =
    ExplainPrompt string string "string list" "string list" "Metadata option" "string option"
  | AnswerPrompt string "(string \<times> string) list"

type_synonym generateContent = "prompt \<Rightarrow> string + string option"

record GeminiClient =
  enabled :: bool
  genAI :: "generateContent option"

definition isEnabled :: "GeminiClient \<Rightarrow> bool" where
  "isEnabled c = (enabled c \<and> genAI c \<noteq> None)"

text \<open>\<open>result.text || null\<close>: an absent or empty text is \<open>null\<close>.\<close>

definition textOrNull :: "string option \<Rightarrow> string option" where
  "textOrNull t = (case t of None \<Rightarrow> None | Some x \<Rightarrow> if x = [] then None else Some x)"

definition generate :: "GeminiClient \<Rightarrow> prompt \<Rightarrow> string option" where
  "generate c p =
     (if \<not> enabled c then None
      else case genAI c of
        None \<Rightarrow> None
      | Some generateContent \<Rightarrow>
          (case generateContent p of
             Inl message \<Rightarrow> None
           | Inr t \<Rightarrow> textOrNull t))"

definition explainResult ::
  "GeminiClient \<Rightarrow> string \<Rightarrow> string \<Rightarrow> string list \<Rightarrow> string list \<Rightarrow> Metadata option \<Rightarrow>
     string option \<Rightarrow> string option" where
  "explainResult c question resultIntent fs fns metadata contextPreview =
     generate c (ExplainPrompt question resultIntent fs fns metadata contextPreview)"

definition answerCodebaseQuestion ::
  "GeminiClient \<Rightarrow> string \<Rightarrow> (string \<times> string) list \<Rightarrow> string option" where
  "answerCodebaseQuestion c question projectFiles =
     generate c (AnswerPrompt question projectFiles)"

section \<open>QueryOrchestrator (src/unnamed/part_001)\<close>

text \<open>
  \<open>QueryResult\<close>; an optional field that is absent is \<open>None\<close>.
\<close>

record QueryResult =
  res_intent :: string
  res_files :: "string list"
  res_functions :: "string list option"
  res_contextPreview :: "string option"
  res_metadata :: "Metadata option"

text \<open>
  Modelled from the spec: the class \<open>QueryPlanner\<close> (\<open>planner/queryPlanner.ts\<close>) is not among
  the sources.  Section 4.4 gives the shape of its result; the planner itself is a
  parameter of the orchestrator.
\<close>

datatype PlanIntent = blast_radius | central_functions | important_files | find_function | unknown

record QueryPlan =
  plan_intent :: PlanIntent
  functionName :: "string option"

text \<open>
  What the orchestrator uses and the sources do not hold: the planner, the two scoring
  queries of \<open>GraphQueries\<close>, and of the platform \<open>fs.readFile\<close> (\<open>None\<close>: the read is
  rejected), the path of the first workspace folder and \<open>path.relative\<close>.
\<close>

record Env =
  planner :: "string \<Rightarrow> QueryPlan"
  functionCentrality :: "KnowledgeGraph \<Rightarrow> CentralityEntry list"
  fileImportance :: "KnowledgeGraph \<Rightarrow> ImportanceEntry list"
  readFile :: "string \<Rightarrow> string option"
  workspaceFolder :: "string option"
  relative :: "string \<Rightarrow> string \<Rightarrow> string"

text \<open>Text helpers: the double quote, the line feed, \<open>split('\n')\<close>, \<open>join\<close>.\<close>

definition dq :: string where
  "dq = [CHR 0x22]"

definition nl :: string where
  "nl = [CHR 0x0A]"

fun splitLines :: "string \<Rightarrow> string list" where
  "splitLines [] = [[]]"
| "splitLines (c # cs) =
     (if c = CHR 0x0A then [] # splitLines cs
      else (case splitLines cs of [] \<Rightarrow> [[c]] | l # ls \<Rightarrow> (c # l) # ls))"

fun joinWith :: "string \<Rightarrow> string list \<Rightarrow> string" where
  "joinWith sep [] = []"
| "joinWith sep [x] = x"
| "joinWith sep (x # y # ys) = x @ sep @ joinWith sep (y # ys)"

text \<open>\<open>path.basename\<close> (POSIX): trailing slashes are dropped, then the last component.\<close>

definition basename :: "string \<Rightarrow> string" where
  "basename p = rev (takeWhile (\<lambda>c. c \<noteq> CHR ''/'') (dropWhile (\<lambda>c. c = CHR ''/'') (rev p)))"

text \<open>\<open>array.filter(x => x)\<close> on optional strings: \<open>undefined\<close> and \<open>''\<close> are dropped.\<close>

definition truthy :: "string option list \<Rightarrow> string list" where
  "truthy xs = List.map_filter (\<lambda>x. case x of None \<Rightarrow> None | Some s \<Rightarrow> if s = [] then None else Some s) xs"

definition buildContextPreview :: "Env \<Rightarrow> string list \<Rightarrow> string" where
  "buildContextPreview env fs =
     joinWith (nl @ nl)
       (List.map_filter (\<lambda>file.
          case readFile env file of
            None \<Rightarrow> None
          | Some content \<Rightarrow>
              Some (''File: '' @ file @ nl @ joinWith nl (take 20 (splitLines content)) @ nl @ ''---''))
        (take 5 fs))"

definition handleBlastRadius :: "KnowledgeGraph \<Rightarrow> QueryPlan \<Rightarrow> QueryResult" where
  "handleBlastRadius g plan =
     (case functionName plan of
        None \<Rightarrow>
          \<lparr>res_intent = ''blast_radius'', res_files = [], res_functions = Some [],
           res_contextPreview = None,
           res_metadata = Some (MetaError ''Function name not found in question'')\<rparr>
      | Some name \<Rightarrow>
          if name = [] then
            \<lparr>res_intent = ''blast_radius'', res_files = [], res_functions = Some [],
             res_contextPreview = None,
             res_metadata = Some (MetaError ''Function name not found in question'')\<rparr>
          else
            (case findFunctionByName g name of
               [] \<Rightarrow>
                 \<lparr>res_intent = ''blast_radius'', res_files = [], res_functions = Some [],
                  res_contextPreview = None,
                  res_metadata = Some (MetaError (''Function '' @ dq @ name @ dq @ '' not found''))\<rparr>
             | first # others \<Rightarrow>
                 (let functionId = node_id first;
                      blastRadius = functionBlastRadius g functionId
                  in \<lparr>res_intent = ''blast_radius'',
                      res_files = affectedFiles blastRadius,
                      res_functions = Some (affectedFunctions blastRadius),
                      res_contextPreview = None,
                      res_metadata = Some (MetaBlastRadius functionId (depth blastRadius)
                                             (length (affectedFunctions blastRadius)))\<rparr>)))"

definition handleCentralFunctions :: "Env \<Rightarrow> KnowledgeGraph \<Rightarrow> QueryResult" where
  "handleCentralFunctions env g =
     (let topFunctions = take 20 (functionCentrality env g)
      in \<lparr>res_intent = ''central_functions'',
          res_files = setOrder (truthy (map (\<lambda>func.
              case getNode g (functionId func) of
                None \<Rightarrow> None
              | Some node \<Rightarrow> dataFile (node_data node)) topFunctions)),
          res_functions = Some (map functionId topFunctions),
          res_contextPreview = None,
          res_metadata = Some (MetaCentral topFunctions)\<rparr>)"

definition handleImportantFiles :: "Env \<Rightarrow> KnowledgeGraph \<Rightarrow> QueryResult" where
  "handleImportantFiles env g =
     (let topFiles = take 10 (fileImportance env g)
      in \<lparr>res_intent = ''important_files'',
          res_files = map fileId topFiles,
          res_functions = None,
          res_contextPreview = None,
          res_metadata = Some (MetaImportant topFiles)\<rparr>)"

definition foundFunction :: "Node \<Rightarrow> FoundFunction" where
  "foundFunction f =
     \<lparr>found_id = node_id f, found_name = dataName (node_data f),
      found_file = dataFile (node_data f),
      found_startLine = (case node_data f of FunctionData i \<Rightarrow> Some (fn_startLine i) | _ \<Rightarrow> None)\<rparr>"

definition handleFindFunction :: "KnowledgeGraph \<Rightarrow> QueryPlan \<Rightarrow> QueryResult" where
  "handleFindFunction g plan =
     (case functionName plan of
        None \<Rightarrow>
          \<lparr>res_intent = ''find_function'', res_files = [], res_functions = Some [],
           res_contextPreview = None, res_metadata = None\<rparr>
      | Some name \<Rightarrow>
          if name = [] then
            \<lparr>res_intent = ''find_function'', res_files = [], res_functions = Some [],
             res_contextPreview = None, res_metadata = None\<rparr>
          else
            (let fns = findFunctionByName g name
             in \<lparr>res_intent = ''find_function'',
                 res_files = setOrder (truthy (map (\<lambda>func. dataFile (node_data func)) fns)),
                 res_functions = Some (map node_id fns),
                 res_contextPreview = None,
                 res_metadata = Some (MetaFound (map foundFunction fns))\<rparr>))"
text \<open>
  The reading loop of \<open>handleGeneralQuery\<close>: \<open>projectFiles\<close> and \<open>totalSize\<close> are the
  accumulators; the loop breaks after the file that would pass \<open>maxSize\<close>, which is cut.
\<close>

definition maxSize :: nat where
  "maxSize = 50000"

fun readProjectFiles ::
  "Env \<Rightarrow> string \<Rightarrow> string list \<Rightarrow> (string \<times> string) list \<Rightarrow> nat \<Rightarrow> (string \<times> string) list" where
  "readProjectFiles env rootPath [] projectFiles totalSize = projectFiles"
| "readProjectFiles env rootPath (filePath # rest) projectFiles totalSize =
     (case readFile env filePath of
        None \<Rightarrow> readProjectFiles env rootPath rest projectFiles totalSize
      | Some content \<Rightarrow>
          if totalSize + length content > maxSize then
            projectFiles @
              [(relative env rootPath filePath,
                take (maxSize - totalSize) content @ nl @ ''... (truncated)'')]
          else
            readProjectFiles env rootPath rest
              (projectFiles @ [(relative env rootPath filePath, content)])
              (totalSize + length content))"

text \<open>
  \<open>handleGeneralQuery\<close>.  Inside its \<open>try\<close> nothing throws: the file reads have their own
  \<open>catch\<close>, and the client catches the errors of the service itself; so the outer \<open>catch\<close>
  has no branch here.
\<close>

definition answerOr :: "string option \<Rightarrow> string \<Rightarrow> string" where
  "answerOr answer d = (case answer of None \<Rightarrow> d | Some a \<Rightarrow> if a = [] then d else a)"

definition handleGeneralQuery ::
  "Env \<Rightarrow> KnowledgeGraph \<Rightarrow> GeminiClient option \<Rightarrow> string \<Rightarrow> QueryResult" where
  "handleGeneralQuery env g geminiClient question =
     (case geminiClient of
        None \<Rightarrow>
          \<lparr>res_intent = ''unknown'', res_files = [], res_functions = Some [],
           res_contextPreview =
             Some ''Gemini API is not enabled. Please configure your API key in settings.'',
           res_metadata = None\<rparr>
      | Some client \<Rightarrow>
          if \<not> isEnabled client then
            \<lparr>res_intent = ''unknown'', res_files = [], res_functions = Some [],
             res_contextPreview =
               Some ''Gemini API is not enabled. Please configure your API key in settings.'',
             res_metadata = None\<rparr>
          else
            (case workspaceFolder env of
               None \<Rightarrow>
                 \<lparr>res_intent = ''general_query'', res_files = [], res_functions = Some [],
                  res_contextPreview = Some ''No workspace folder found.'',
                  res_metadata = None\<rparr>
             | Some rootPath \<Rightarrow>
                 (let allFiles = List.map_filter (\<lambda>n. dataPath (node_data n)) (getNodesByType g File);
                      importantFiles = map fileId (take 15 (fileImportance env g));
                      filesToRead = take 20 (setOrder (importantFiles @ take 20 allFiles));
                      projectFiles = readProjectFiles env rootPath filesToRead [] 0;
                      answer = answerCodebaseQuestion client question projectFiles
                  in \<lparr>res_intent = ''general_query'', res_files = filesToRead,
                      res_functions = None,
                      res_contextPreview =
                        Some (answerOr answer ''Failed to get answer from Gemini API.''),
                      res_metadata = None\<rparr>)))"

definition handleDependencies :: "KnowledgeGraph \<Rightarrow> string \<Rightarrow> QueryResult" where
  "handleDependencies g target' =
     (let fileName = basename target'
      in case filter (\<lambda>n. case dataPath (node_data n) of
                             None \<Rightarrow> False | Some p \<Rightarrow> endsWith p fileName)
                (getNodesByType g File) of
           [] \<Rightarrow>
             \<lparr>res_intent = ''DEPENDENCIES'', res_files = [], res_functions = None,
              res_contextPreview = None,
              res_metadata = Some (MetaError (''File '' @ dq @ target' @ dq @ '' not found''))\<rparr>
         | first # others \<Rightarrow>
             (let fileId = node_id first;
                  imports = filter (\<lambda>e. edge_type e = IMPORTS) (getOutgoingEdges g fileId);
                  dependencies = truthy (map (\<lambda>e.
                     case getNode g (edge_to e) of
                       None \<Rightarrow> None
                     | Some n \<Rightarrow> dataPath (node_data n)) imports)
              in \<lparr>res_intent = ''DEPENDENCIES'',
                  res_files = (case dataPath (node_data first) of None \<Rightarrow> [] | Some p \<Rightarrow> [p]),
                  res_functions = None,
                  res_contextPreview =
                    Some (''Dependencies of '' @ fileName @ '':'' @ nl @
                          joinWith nl (map (\<lambda>d. ''- '' @ basename d) dependencies)),
                  res_metadata = Some (MetaDependencies (length dependencies) dependencies)\<rparr>))"

definition handleUsage :: "KnowledgeGraph \<Rightarrow> string \<Rightarrow> QueryResult" where
  "handleUsage g target' =
     (case filter (\<lambda>n. dataName (node_data n) = Some target') (getNodesByType g Function) of
        [] \<Rightarrow>
          \<lparr>res_intent = ''USAGE'', res_files = [], res_functions = None,
           res_contextPreview = None,
           res_metadata = Some (MetaError (''Function '' @ dq @ target' @ dq @ '' not found''))\<rparr>
      | first # others \<Rightarrow>
          (let funcId = node_id first;
               callers = filter (\<lambda>e. edge_type e = CALLS) (getIncomingEdges g funcId);
               callingFunctions = truthy (map (\<lambda>e.
                  case getNode g (edge_from e) of
                    None \<Rightarrow> None
                  | Some n \<Rightarrow> dataName (node_data n)) callers)
           in \<lparr>res_intent = ''USAGE'',
               res_files = (case dataFile (node_data first) of None \<Rightarrow> [] | Some f \<Rightarrow> [f]),
               res_functions = Some [funcId],
               res_contextPreview =
                 Some (''Function '' @ target' @ '' is called by:'' @ nl @
                       joinWith nl (map (\<lambda>c. ''- '' @ c) callingFunctions)),
               res_metadata = Some (MetaUsage (length callingFunctions) callingFunctions)\<rparr>))"

definition handleHistory :: "string \<Rightarrow> QueryResult" where
  "handleHistory target' =
     \<lparr>res_intent = ''HISTORY'', res_files = [], res_functions = None,
      res_contextPreview =
        Some (''History analysis for '' @ target' @ '' requires Historian agent data integration.''),
      res_metadata = Some (MetaWarning ''Not fully implemented yet'')\<rparr>"

definition handleRisks :: "string \<Rightarrow> QueryResult" where
  "handleRisks target' =
     \<lparr>res_intent = ''RISKS'', res_files = [], res_functions = None,
      res_contextPreview =
        Some (''Risk analysis for '' @ target' @ '' requires RiskAssessor agent data integration.''),
      res_metadata = Some (MetaWarning ''Not fully implemented yet'')\<rparr>"

text \<open>
  Step 0 of \<open>runQuery\<close>: a parsed question with one of the four handled intents returns
  the handler's result at once; \<open>None\<close> is the fall through to the planner (no parse, or
  the intent EXPLAIN, for which the \<open>switch\<close> has no case).
\<close>

definition parsedResult :: "KnowledgeGraph \<Rightarrow> ParsedQuery option \<Rightarrow> QueryResult option" where
  "parsedResult g parsed =
     (case parsed of
        None \<Rightarrow> None
      | Some p \<Rightarrow>
          (case intent p of
             DEPENDENCIES \<Rightarrow> Some (handleDependencies g (target p))
           | USAGE \<Rightarrow> Some (handleUsage g (target p))
           | HISTORY \<Rightarrow> Some (handleHistory (target p))
           | RISKS \<Rightarrow> Some (handleRisks (target p))
           | EXPLAIN \<Rightarrow> None))"

text \<open>Step 2: the \<open>switch\<close> on \<open>plan.intent\<close>.\<close>

definition planResult ::
  "Env \<Rightarrow> KnowledgeGraph \<Rightarrow> GeminiClient option \<Rightarrow> string \<Rightarrow> QueryPlan \<Rightarrow> QueryResult" where
  "planResult env g geminiClient question plan =
     (case plan_intent plan of
        blast_radius \<Rightarrow> handleBlastRadius g plan
      | central_functions \<Rightarrow> handleCentralFunctions env g
      | important_files \<Rightarrow> handleImportantFiles env g
      | find_function \<Rightarrow> handleFindFunction g plan
      | unknown \<Rightarrow> handleGeneralQuery env g geminiClient question)"

text \<open>
  Step 3, the explanation phase: only with an enabled client and a result that is not a
  \<open>general_query\<close>.  \<open>buildContextPreview\<close> and \<open>explainResult\<close> do not throw here (they
  catch their own errors), so the \<open>catch\<close> of this phase has no branch; an explanation that
  is \<open>null\<close> leaves the result as it is.
\<close>

definition explainPhase ::
  "Env \<Rightarrow> GeminiClient option \<Rightarrow> string \<Rightarrow> QueryResult \<Rightarrow> QueryResult" where
  "explainPhase env geminiClient question result =
     (case geminiClient of
        None \<Rightarrow> result
      | Some client \<Rightarrow>
          if isEnabled client \<and> res_intent result \<noteq> ''general_query'' then
            (let contextPreview = buildContextPreview env (res_files result);
                 explanation = explainResult client question (res_intent result)
                    (res_files result)
                    (case res_functions result of None \<Rightarrow> [] | Some fns \<Rightarrow> fns)
                    (res_metadata result) (Some contextPreview)
             in case explanation of
                  None \<Rightarrow> result
                | Some text \<Rightarrow>
                    if text = [] then result else result\<lparr>res_contextPreview := Some text\<rparr>)
          else result)"

definition runQuery ::
  "Env \<Rightarrow> KnowledgeGraph \<Rightarrow> GeminiClient option \<Rightarrow> string \<Rightarrow> QueryResult" where
  "runQuery env g geminiClient question =
     (case parsedResult g (parse question) of
        Some result \<Rightarrow> result
      | None \<Rightarrow>
          (let plan = planner env question;
               result = planResult env g geminiClient question plan
           in explainPhase env geminiClient question result))"

text \<open>
  The facts of a result, which the explanation may not touch; whether the client is there
  and enabled; and whether a question ends in \<open>handleGeneralQuery\<close>.
\<close>

definition facts :: "QueryResult \<Rightarrow> string list \<times> string list option \<times> Metadata option" where
  "facts r = (res_files r, res_functions r, res_metadata r)"

definition available :: "GeminiClient option \<Rightarrow> bool" where
  "available geminiClient = (case geminiClient of None \<Rightarrow> False | Some client \<Rightarrow> isEnabled client)"

definition generalQuery :: "Env \<Rightarrow> KnowledgeGraph \<Rightarrow> string \<Rightarrow> bool" where
  "generalQuery env g question =
     (parsedResult g (parse question) = None \<and> plan_intent (planner env question) = unknown)"


text \<open>
  Fixtures: an environment without files on disk whose planner answers every question
  with a given plan; a client whose service always answers \<open>ok\<close>, and one whose service
  always throws; a graph with one file.
\<close>

definition planEnv :: "QueryPlan \<Rightarrow> Env" where
  "planEnv plan =
     \<lparr>planner = (\<lambda>question. plan), functionCentrality = (\<lambda>g. []), fileImportance = (\<lambda>g. []),
      readFile = (\<lambda>file. None), workspaceFolder = Some ''/w'', relative = (\<lambda>a b. b)\<rparr>"

definition okClient :: GeminiClient where
  "okClient = \<lparr>enabled = True, genAI = Some (\<lambda>p. Inr (Some ''ok''))\<rparr>"

definition failingClient :: GeminiClient where
  "failingClient = \<lparr>enabled = True, genAI = Some (\<lambda>p. Inl ''quota exceeded'')\<rparr>"

definition oneFileGraph :: KnowledgeGraph where
  "oneFileGraph = addNode \<lparr>node_id = ''/w/a.ts'', node_data = FileData ''/w/a.ts''\<rparr> emptyGraph"

definition noWorkspaceEnv :: "QueryPlan \<Rightarrow> Env" where
  "noWorkspaceEnv plan = (planEnv plan)\<lparr>workspaceFolder := None\<rparr>"

text \<open>
  The value of \<open>filesToRead\<close> in \<open>handleGeneralQuery\<close>: the ids of the 15 most important
  files, then the paths of the first 20 File nodes, without repetition, cut to 20.
\<close>

definition selectedFiles :: "Env \<Rightarrow> KnowledgeGraph \<Rightarrow> string list" where
  "selectedFiles env g =
     take 20 (setOrder (map fileId (take 15 (fileImportance env g)) @
        take 20 (List.map_filter (\<lambda>n. dataPath (node_data n)) (getNodesByType g File))))"

section \<open>Theorems: KnowledgeBase\<close>


section \<open>Theorems: QueryParser\<close>

lemma not_upper_lower: "\<not> isUpper (toLowerChar c)"
proof -
  have lt: "(of_char c :: nat) < 256" by simp
  show ?thesis
  proof (cases "isUpper c")
    case False then show ?thesis by (simp add: toLowerChar_def)
  next
    case True
    then have "(of_char c :: nat) + 32 < 256"
      by (auto simp: isUpper_def Let_def)
    then have "(of_char (char_of ((of_char c :: nat) + 32)) :: nat) = of_char c + 32"
      by simp
    with True show ?thesis
      by (auto simp: isUpper_def toLowerChar_def Let_def)
  qed
qed

lemma rmatch_chars:
  "(c, s') \<in> set (rmatch r s) \<Longrightarrow> set s' \<subseteq> set s \<and> (\<forall>t. c = Some t \<longrightarrow> set t \<subseteq> set s)"
proof (induction r arbitrary: c s' s)
  case (Lit l)
  then show ?case by (auto split: if_splits dest: in_set_dropD)
next
  case (Plus k)
  then show ?case by (auto dest: in_set_dropD)
next
  case (Alt a b)
  from Alt.prems have "(c, s') \<in> set (rmatch a s) \<or> (c, s') \<in> set (rmatch b s)" by simp
  then show ?case using Alt.IH by blast
next
  case (Opt r)
  from Opt.prems have "(c, s') \<in> set (rmatch r s) \<or> (c = None \<and> s' = s)" by auto
  then show ?case using Opt.IH by blast
next
  case (Seq a b)
  from Seq.prems obtain c1 s1 c2 where
    a: "(c1, s1) \<in> set (rmatch a s)" and b: "(c2, s') \<in> set (rmatch b s1)"
    and c: "c = (case c2 of None \<Rightarrow> c1 | Some t \<Rightarrow> Some t)"
    by auto
  from Seq.IH(1)[OF a] Seq.IH(2)[OF b] c show ?case
    by (cases c2) auto
next
  case (Group r)
  from Group.prems obtain c0 where "(c0, s') \<in> set (rmatch r s)"
    and "c = Some (take (length s - length s') s)" by auto
  then show ?case using Group.IH[of c0 s' s] by (auto dest: in_set_takeD)
qed

lemma rsearch_chars: "rsearch r s = Some (Some t) \<Longrightarrow> set t \<subseteq> set s"
proof (induction s)
  case Nil
  then show ?case
    by (cases "rmatch r []") (use rmatch_chars[of "Some t" _ r "[]"] in \<open>auto split: list.splits\<close>)
next
  case (Cons x xs)
  show ?case
  proof (cases "rmatch r (x # xs)")
    case Nil
    with Cons show ?thesis by auto
  next
    case (Cons p ps)
    obtain c s' where p: "p = (c, s')" by (cases p)
    with Cons Cons.prems have "c = Some t" by simp
    with Cons p have "(Some t, s') \<in> set (rmatch r (x # xs))" by simp
    from rmatch_chars[OF this] show ?thesis by simp
  qed
qed

lemma rmatch_captures: "captures r \<Longrightarrow> (c, s') \<in> set (rmatch r s) \<Longrightarrow> c \<noteq> None"
proof (induction r arbitrary: c s' s)
  case (Seq a b)
  from Seq.prems(2) obtain c1 s1 c2 where
    a: "(c1, s1) \<in> set (rmatch a s)" and b: "(c2, s') \<in> set (rmatch b s1)"
    and c: "c = (case c2 of None \<Rightarrow> c1 | Some t \<Rightarrow> Some t)"
    by auto
  from Seq.prems(1) have "captures a \<or> captures b" by simp
  then show ?case
  proof
    assume "captures a"
    from Seq.IH(1)[OF this a] c show ?thesis by (cases c2) auto
  next
    assume "captures b"
    from Seq.IH(2)[OF this b] c show ?thesis by (cases c2) auto
  qed
qed auto

lemma rsearch_group: "captures r \<Longrightarrow> rsearch r s \<noteq> Some None"
proof (induction s)
  case Nil
  then show ?case
    by (cases "rmatch r []") (use rmatch_captures[of r None _ "[]"] in \<open>auto\<close>)
next
  case (Cons x xs)
  then show ?case
    by (cases "rmatch r (x # xs)") (use rmatch_captures[of r None _ "x # xs"] in \<open>auto\<close>)
qed

lemma set_trim: "set (trim s) \<subseteq> set s"
proof
  fix x assume "x \<in> set (trim s)"
  then have "x \<in> set (dropWhile isSpace (rev (dropWhile isSpace s)))" by (simp add: trim_def)
  then have "x \<in> set (rev (dropWhile isSpace s))" by (rule set_dropWhileD)
  then have "x \<in> set (dropWhile isSpace s)" by simp
  then show "x \<in> set s" by (rule set_dropWhileD)
qed

lemma group1_lower:
  assumes "rsearch r (trim (toLowerCase q)) = Some m" and "c \<in> set (group1 m)"
  shows "\<not> isUpper c"
proof (cases m)
  case None
  with assms show ?thesis by (simp add: group1_def)
next
  case (Some t)
  with assms have "c \<in> set (trim (toLowerCase q))"
    using rsearch_chars[of r "trim (toLowerCase q)" t] by (auto simp: group1_def)
  then have "c \<in> set (toLowerCase q)" using set_trim by blast
  then show ?thesis by (auto simp: toLowerCase_def not_upper_lower)
qed

lemma orElse_Some: "orElse a b = Some m \<Longrightarrow> a = Some m \<or> b = Some m"
  by (auto simp: orElse_def split: option.splits)

lemma parse_shape:
  assumes "parse q = Some p"
  shows "\<exists>i r m. rsearch r (trim (toLowerCase q)) = Some m \<and> p = hit i m"
  using assms unfolding parse_def Let_def
  by (auto split: option.splits dest!: orElse_Some)

lemma patterns_capture:
  "captures depRe1" "captures depRe2" "captures usageRe1" "captures usageRe2"
  "captures historyRe1" "captures historyRe2" "captures riskRe" "captures explainRe"
  by (simp_all add: depRe1_def depRe2_def usageRe1_def usageRe2_def historyRe1_def
      historyRe2_def riskRe_def explainRe_def word_def)

text \<open>
  C4. What \<open>parse\<close> returns on the three questions of the specification's test:
  \<open>"dependencies of foo.ts"\<close> gives intent DEPENDENCIES with target \<open>foo.ts\<close>, and
  \<open>"hello world"\<close> gives \<open>null\<close>, as specified; \<open>"who calls computeTotal"\<close> gives intent USAGE
  with the lower-cased target \<open>computetotal\<close>, not \<open>computeTotal\<close>: the patterns run on the
  lower-cased question, so the range \<open>A-Z\<close> of the capture class never matches anything.
\<close>

theorem parse_examples:
  "parse ''dependencies of foo.ts'' =
     Some \<lparr>intent = DEPENDENCIES, target = ''foo.ts'', confidence = 9 / 10\<rparr> \<and>
   parse ''who calls computeTotal'' =
     Some \<lparr>intent = USAGE, target = ''computetotal'', confidence = 9 / 10\<rparr> \<and>
   parse ''who calls computeTotal'' \<noteq>
     Some \<lparr>intent = USAGE, target = ''computeTotal'', confidence = 9 / 10\<rparr> \<and>
   parse ''hello world'' = None"
  by code_simp

text \<open>
  C10. Whenever \<open>parse\<close> returns a ParsedQuery, its confidence is 0.9 and its target has
  no upper-case letter: the target is a piece of the lower-cased, trimmed question.
\<close>

theorem parse_confidence_and_lower_case_target:
  "parse q = Some p \<Longrightarrow> confidence p = 9 / 10 \<and> (\<forall>c \<in> set (target p). \<not> isUpper c)"
proof -
  assume "parse q = Some p"
  from parse_shape[OF this] obtain i r m where
    m: "rsearch r (trim (toLowerCase q)) = Some m" and p: "p = hit i m" by blast
  from p have "confidence p = 9 / 10" by (simp add: hit_def)
  moreover from m p have "\<forall>c \<in> set (target p). \<not> isUpper c"
    using group1_lower by (auto simp: hit_def)
  ultimately show ?thesis by simp
qed

theorem parse_confidence_and_lower_case_target_witness:
  "parse ''Who Calls computeTotal'' =
     Some \<lparr>intent = USAGE, target = ''computetotal'', confidence = 9 / 10\<rparr> \<and>
   confidence \<lparr>intent = USAGE, target = ''computetotal'', confidence = 9 / 10\<rparr> = 9 / 10 \<and>
   list_all (\<lambda>c. \<not> isUpper c) ''computetotal''"
proof -
  have p: "parse ''Who Calls computeTotal'' =
     Some \<lparr>intent = USAGE, target = ''computetotal'', confidence = 9 / 10\<rparr>"
    by code_simp
  from parse_confidence_and_lower_case_target[OF p] p show ?thesis
    by (simp add: list_all_iff)
qed

section \<open>Theorems: findCycles\<close>

text \<open>
  C5. On the dependency list with the edges \<open>A \<rightarrow> B\<close>, \<open>B \<rightarrow> C\<close>, \<open>C \<rightarrow> A\<close> (three different
  ids) \<open>findCycles\<close> returns exactly one cycle, \<open>[A, B, C, A]\<close>, also when the last two edges
  come in the other order.  Every other order of the three edges is one of these two with
  the ids renamed, and gives a rotation of the cycle, which starts at the source of the
  first edge.
\<close>

theorem findCycles_triangle:
  assumes "a \<noteq> b" "b \<noteq> c" "a \<noteq> c"
  shows "findCycles [\<lparr>dep_from = a, dep_to = b\<rparr>, \<lparr>dep_from = b, dep_to = c\<rparr>,
     \<lparr>dep_from = c, dep_to = a\<rparr>] = [[a, b, c, a]] \<and>
   findCycles [\<lparr>dep_from = a, dep_to = b\<rparr>, \<lparr>dep_from = c, dep_to = a\<rparr>,
     \<lparr>dep_from = b, dep_to = c\<rparr>] = [[a, b, c, a]]"
  using assms
  by (simp add: findCycles_def buildAdjacency_def addDep_def neighbors_def slice_def Let_def)

theorem findCycles_triangle_witness:
  "findCycles [\<lparr>dep_from = ''A'', dep_to = ''B''\<rparr>, \<lparr>dep_from = ''B'', dep_to = ''C''\<rparr>,
     \<lparr>dep_from = ''C'', dep_to = ''A''\<rparr>] = [[''A'', ''B'', ''C'', ''A'']]"
  using findCycles_triangle[of "''A''" "''B''" "''C''"] by simp

lemma map_of_upd:
  "map_of (map (\<lambda>(k, v). if k = a then (k, v @ [b]) else (k, v)) g) k =
     (if k = a then map_option (\<lambda>v. v @ [b]) (map_of g k) else map_of g k)"
  by (induction g) auto

lemma neighbors_addDep:
  "neighbors (addDep g d) k =
     (if k = dep_from d then neighbors g k @ [dep_to d] else neighbors g k)"
  by (auto simp: neighbors_def addDep_def Let_def map_of_upd map_of_append split: option.splits)

lemma neighbors_foldl:
  "neighbors (foldl addDep g ds) k =
     neighbors g k @ map dep_to (filter (\<lambda>d. dep_from d = k) ds)"
  by (induction ds arbitrary: g) (auto simp: neighbors_addDep)

lemma neighbors_build:
  "neighbors (buildAdjacency ds) k = map dep_to (filter (\<lambda>d. dep_from d = k) ds)"
proof -
  have "neighbors [] k = []" by (simp add: neighbors_def)
  then show ?thesis by (simp add: buildAdjacency_def neighbors_foldl)
qed

lemma edgesOf_build:
  "edgesOf (buildAdjacency ds) = (\<lambda>d. (dep_from d, dep_to d)) ` set ds"
  by (auto simp: edgesOf_def neighbors_build)

lemma no_cycle_found:
  fixes s :: dfs_state
  assumes ac: "acyclic (edgesOf graph)"
  shows "(\<forall>x \<in> recursionStack s. (x, node) \<in> (edgesOf graph)\<^sup>+) \<Longrightarrow>
           cycles (visit graph node path s) = cycles s \<and>
           recursionStack (visit graph node path s) \<subseteq> recursionStack s"
    and "(\<exists>node. set ns \<subseteq> edgesOf graph `` {node} \<and>
              (\<forall>x \<in> recursionStack s. (x, node) \<in> (edgesOf graph)\<^sup>*)) \<Longrightarrow>
           cycles (visitNeighbors graph path ns s) = cycles s \<and>
           recursionStack (visitNeighbors graph path ns s) \<subseteq> recursionStack s"
  using ac
proof (induction graph node path s and graph path ns s rule: visit_visitNeighbors.induct)
  case (1 graph node path s)
  let ?s1 = "s\<lparr>visited := insert node (visited s),
                recursionStack := insert node (recursionStack s)\<rparr>"
  have pre: "\<exists>n. set (neighbors graph node) \<subseteq> edgesOf graph `` {n} \<and>
      (\<forall>x \<in> recursionStack ?s1. (x, n) \<in> (edgesOf graph)\<^sup>*)"
  proof (intro exI[of _ node] conjI ballI)
    show "set (neighbors graph node) \<subseteq> edgesOf graph `` {node}"
      by (auto simp: edgesOf_def)
  next
    fix x assume "x \<in> recursionStack ?s1"
    then show "(x, node) \<in> (edgesOf graph)\<^sup>*"
      using "1.prems"(1) by (auto dest: trancl_into_rtrancl)
  qed
  from "1.IH"[OF pre "1.prems"(2)] show ?case
    by (auto simp: Let_def)
next
  case (2 graph path s)
  then show ?case by simp
next
  case (3 graph path neighbor rest s)
  from "3.prems"(1) obtain node where
    sub: "set (neighbor # rest) \<subseteq> edgesOf graph `` {node}" and
    st: "\<forall>x \<in> recursionStack s. (x, node) \<in> (edgesOf graph)\<^sup>*" by blast
  from sub have e: "(node, neighbor) \<in> edgesOf graph" by simp
  show ?case
  proof (cases "neighbor \<in> visited s")
    case False
    have pre1: "\<forall>x \<in> recursionStack s. (x, neighbor) \<in> (edgesOf graph)\<^sup>+"
      using st e by (auto intro: rtrancl_into_trancl1)
    from "3.IH"(1)[OF False pre1 "3.prems"(2)]
    have v: "cycles (visit graph neighbor path s) = cycles s"
      and r: "recursionStack (visit graph neighbor path s) \<subseteq> recursionStack s" by simp_all
    have pre2: "\<exists>node. set rest \<subseteq> edgesOf graph `` {node} \<and>
        (\<forall>x \<in> recursionStack (visit graph neighbor path s). (x, node) \<in> (edgesOf graph)\<^sup>*)"
      using sub st r by (intro exI[of _ node]) auto
    from "3.IH"(2)[OF False pre2 "3.prems"(2)] v r False show ?thesis by auto
  next
    case True
    have notin: "neighbor \<notin> recursionStack s"
    proof
      assume "neighbor \<in> recursionStack s"
      with st have "(neighbor, node) \<in> (edgesOf graph)\<^sup>*" by blast
      from this e have "(neighbor, neighbor) \<in> (edgesOf graph)\<^sup>+"
        by (rule rtrancl_into_trancl1)
      with "3.prems"(2) show False by (auto simp: acyclic_def)
    qed
    have pre3: "\<exists>node. set rest \<subseteq> edgesOf graph `` {node} \<and>
        (\<forall>x \<in> recursionStack s. (x, node) \<in> (edgesOf graph)\<^sup>*)"
      using sub st by (intro exI[of _ node]) auto
    from "3.IH"(4)[OF _ notin pre3 "3.prems"(2)] True notin show ?thesis by simp
  qed
qed

lemma top_loop:
  fixes s :: dfs_state
  assumes "acyclic (edgesOf graph)" and "recursionStack s = {}"
  shows "cycles (foldl (\<lambda>s node. if node \<notin> visited s then visit graph node [] s else s) s ks)
           = cycles s"
  using assms(2)
proof (induction ks arbitrary: s)
  case Nil
  then show ?case by simp
next
  case (Cons k ks)
  have "cycles (visit graph k [] s) = cycles s \<and> recursionStack (visit graph k [] s) = {}"
    using no_cycle_found(1)[OF assms(1), of s k "[]"] Cons.prems by auto
  with Cons show ?case by auto
qed

text \<open>
  C6. On a dependency list whose edges form no cycle \<open>findCycles\<close> returns the empty
  list; the edges \<open>A \<rightarrow> B\<close>, \<open>B \<rightarrow> C\<close> are the witness.  The search is a total function:
  its termination is proved above for every adjacency list, cyclic or not, from the
  marks in \<open>visited\<close> alone.
\<close>

theorem findCycles_acyclic:
  "acyclic ((\<lambda>d. (dep_from d, dep_to d)) ` set dependencies) \<Longrightarrow> findCycles dependencies = []"
  using top_loop[of "buildAdjacency dependencies" "\<lparr>cycles = [], visited = {}, recursionStack = {}\<rparr>"]
  by (simp add: findCycles_def edgesOf_build Let_def)

theorem findCycles_acyclic_witness:
  "acyclic ((\<lambda>d. (dep_from d, dep_to d)) `
      set [\<lparr>dep_from = ''A'', dep_to = ''B''\<rparr>, \<lparr>dep_from = ''B'', dep_to = ''C''\<rparr>]) \<and>
   findCycles [\<lparr>dep_from = ''A'', dep_to = ''B''\<rparr>, \<lparr>dep_from = ''B'', dep_to = ''C''\<rparr>] = []"
proof -
  have a: "acyclic ((\<lambda>d. (dep_from d, dep_to d)) `
      set [\<lparr>dep_from = ''A'', dep_to = ''B''\<rparr>, \<lparr>dep_from = ''B'', dep_to = ''C''\<rparr>])"
  proof -
    have "acyclic ({} :: (string \<times> string) set)" by (simp add: acyclic_def)
    then show ?thesis by (simp add: rtrancl_insert)
  qed
  from findCycles_acyclic[OF a] a show ?thesis by simp
qed

section \<open>Theorems: functionBlastRadius\<close>

lemma bfs_eval_done:
  "bfs g \<lparr>seen = v, queue = [], affected = a, maxDepth = m\<rparr>
     = \<lparr>seen = v, queue = [], affected = a, maxDepth = m\<rparr>"
  by (simp add: bfs_done)

lemma bfs_eval_step:
  "bfs g \<lparr>seen = v, queue = (c, l) # rest, affected = a, maxDepth = m\<rparr>
     = bfs g (enqueueCallers (callersOf g c) l
         \<lparr>seen = v, queue = rest, affected = a, maxDepth = m\<rparr>)"
  by (simp add: bfs_step[of _ c l rest])

lemmas blast_eval =
  functionBlastRadius_def callChain_def callCycle_def addEdge_def addNode_def emptyGraph_def
  functionNode_def callEdge_def getNode_def callersOf_def getIncomingEdges_def setOrder_def
  List.map_filter_def bfs_eval_done bfs_eval_step

text \<open>
  The traversal of section 4.2 on the call chain \<open>A \<rightarrow> B \<rightarrow> C\<close>.  It follows the CALLS edges
  against their direction, so it finds nothing from \<open>A\<close>, which no function calls, and
  finds \<open>B\<close>, then \<open>A\<close> from \<open>C\<close>.
\<close>

lemma blast_radius_chain_incoming:
  "functionBlastRadius callChain ''A'' =
     \<lparr>affectedFunctions = [], affectedFiles = [], depth = 0\<rparr> \<and>
   functionBlastRadius callChain ''C'' =
     \<lparr>affectedFunctions = [''B'', ''A''], affectedFiles = [''f.ts''], depth = 2\<rparr>"
  by (simp add: blast_eval)

lemma enqueueCallers_inv:
  fixes s :: bfs_state
  assumes "distinct (affected s)" and "set (affected s) \<subseteq> seen s" and "f \<in> seen s"
    and "f \<notin> set (affected s)"
  shows "distinct (affected (enqueueCallers cs level s)) \<and>
         set (affected (enqueueCallers cs level s)) \<subseteq> seen (enqueueCallers cs level s) \<and>
         f \<in> seen (enqueueCallers cs level s) \<and>
         f \<notin> set (affected (enqueueCallers cs level s))"
  using assms
proof (induction cs arbitrary: s)
  case Nil
  then show ?case by simp
next
  case (Cons c cs)
  show ?case
  proof (cases "c \<in> seen s")
    case True
    with Cons show ?thesis by simp
  next
    case False
    let ?s = "s\<lparr>seen := insert c (seen s), queue := queue s @ [(c, level + 1)],
        affected := affected s @ [c], maxDepth := max (maxDepth s) (level + 1)\<rparr>"
    have "distinct (affected ?s)" "set (affected ?s) \<subseteq> seen ?s" "f \<in> seen ?s"
      "f \<notin> set (affected ?s)"
      using Cons.prems False by auto
    from Cons.IH[OF this] False show ?thesis by simp
  qed
qed

lemma bfs_inv:
  fixes s :: bfs_state
  assumes "distinct (affected s)" and "set (affected s) \<subseteq> seen s" and "f \<in> seen s"
    and "f \<notin> set (affected s)"
  shows "distinct (affected (bfs g s)) \<and> f \<notin> set (affected (bfs g s))"
  using assms
proof (induction g s rule: bfs.induct)
  case (1 g s)
  show ?case
  proof (cases "queue s")
    case Nil
    with "1.prems" show ?thesis by (simp add: bfs_done)
  next
    case (Cons x rest)
    obtain current level where x: "x = (current, level)" by (cases x)
    let ?s = "s\<lparr>queue := rest\<rparr>"
    have "distinct (affected ?s)" "set (affected ?s) \<subseteq> seen ?s" "f \<in> seen ?s"
      "f \<notin> set (affected ?s)"
      using "1.prems" by simp_all
    from enqueueCallers_inv[OF this, of "callersOf g current" level]
    have inv: "distinct (affected (enqueueCallers (callersOf g current) level ?s))"
      "set (affected (enqueueCallers (callersOf g current) level ?s))
         \<subseteq> seen (enqueueCallers (callersOf g current) level ?s)"
      "f \<in> seen (enqueueCallers (callersOf g current) level ?s)"
      "f \<notin> set (affected (enqueueCallers (callersOf g current) level ?s))"
      by simp_all
    from Cons x have q: "queue s = (current, level) # rest" by simp
    from "1.IH"[OF Cons x[symmetric] inv] show ?thesis
      by (simp add: bfs_step[OF q])
  qed
qed

text \<open>
  C3. For every graph and every id \<open>f\<close> (in the graph or not), the affected functions of
  \<open>functionBlastRadius(f)\<close> hold no id twice and do not hold \<open>f\<close>.  The traversal is a total
  function: its termination is proved above for every graph, so also when the CALLS edges
  form a cycle, as in \<open>callCycle\<close>.
\<close>

theorem blast_radius_distinct_without_start:
  "distinct (affectedFunctions (functionBlastRadius g f)) \<and>
   f \<notin> set (affectedFunctions (functionBlastRadius g f))"
proof (cases "getNode g f")
  case None
  then show ?thesis by (simp add: functionBlastRadius_def)
next
  case (Some n)
  have "distinct (affected (bfs g \<lparr>seen = {f}, queue = [(f, 0)], affected = [], maxDepth = 0\<rparr>)) \<and>
    f \<notin> set (affected (bfs g \<lparr>seen = {f}, queue = [(f, 0)], affected = [], maxDepth = 0\<rparr>))"
    by (rule bfs_inv) simp_all
  with Some show ?thesis by (simp add: functionBlastRadius_def Let_def)
qed

theorem blast_radius_cycle_witness:
  "functionBlastRadius callCycle ''C'' =
     \<lparr>affectedFunctions = [''B'', ''A''], affectedFiles = [''f.ts''], depth = 2\<rparr> \<and>
   distinct (affectedFunctions (functionBlastRadius callCycle ''C'')) \<and>
   ''C'' \<notin> set (affectedFunctions (functionBlastRadius callCycle ''C''))"
proof -
  have "functionBlastRadius callCycle ''C'' =
     \<lparr>affectedFunctions = [''B'', ''A''], affectedFiles = [''f.ts''], depth = 2\<rparr>"
    by (simp add: blast_eval)
  with blast_radius_distinct_without_start[of callCycle "''C''"] show ?thesis by simp
qed

section \<open>Theorems: call resolution during the build\<close>

lemma nodes_addEdge: "nodes (addEdge e g) = nodes g"
  by (simp add: addEdge_def)

lemma nodes_addCall: "nodes (addCall funcId call g) = nodes g"
  by (simp add: addCall_def Let_def nodes_addEdge split: list.splits)

lemma filter_first: "(case filter P xs of [] \<Rightarrow> a | y # ys \<Rightarrow> b y) =
    (case find P xs of None \<Rightarrow> a | Some y \<Rightarrow> b y)"
  by (induction xs) auto

lemma addCall_find:
  "addCall funcId call g =
     (case find (callMatches call) (getNodesByType g Function) of
        None \<Rightarrow> g
      | Some first \<Rightarrow>
          addEdge \<lparr>edge_from = funcId, edge_to = node_id first, edge_type = CALLS\<rparr> g)"
  unfolding addCall_def Let_def by (rule filter_first)

lemma fold_addCall:
  "nodes (fold (addCall funcId) cs g) = nodes g \<and>
   edges (fold (addCall funcId) cs g) =
     edges g @ List.map_filter (\<lambda>call.
        map_option (\<lambda>first. \<lparr>edge_from = funcId, edge_to = node_id first, edge_type = CALLS\<rparr>)
          (find (callMatches call) (getNodesByType g Function))) cs"
proof (induction cs arbitrary: g)
  case Nil
  then show ?case by (simp add: List.map_filter_simps)
next
  case (Cons c cs)
  have t: "getNodesByType (addCall funcId c g) Function = getNodesByType g Function"
    by (simp add: getNodesByType_def nodes_addCall)
  show ?case
  proof (cases "find (callMatches c) (getNodesByType g Function)")
    case None
    then have "addCall funcId c g = g" by (simp add: addCall_find)
    with Cons[of g] None show ?thesis by (simp add: List.map_filter_simps)
  next
    case (Some n)
    then have "edges (addCall funcId c g) =
        edges g @ [\<lparr>edge_from = funcId, edge_to = node_id n, edge_type = CALLS\<rparr>]"
      by (simp add: addCall_find addEdge_def)
    with Cons[of "addCall funcId c g"] Some t show ?thesis
      by (simp add: List.map_filter_simps nodes_addCall)
  qed
qed

text \<open>
  The edges that \<open>addFunction\<close> adds: the DEFINES edge, then for every call name in order
  the CALLS edge to the first Function node that passes the test of the filter, if there
  is one.
\<close>

lemma addFunction_edges:
  "nodes (addFunction file func g) =
     nodes (addNode \<lparr>node_id = fn_id func, node_data = FunctionData func\<rparr> g) \<and>
   edges (addFunction file func g) =
     edges g @ [\<lparr>edge_from = file, edge_to = fn_id func, edge_type = DEFINES\<rparr>] @
     List.map_filter (\<lambda>call.
        map_option
          (\<lambda>first. \<lparr>edge_from = fn_id func, edge_to = node_id first, edge_type = CALLS\<rparr>)
          (find (\<lambda>f. dataName (node_data f) = Some call \<or>
                      includesStr (node_id f) (''::'' @ call))
             (getNodesByType
                (addNode \<lparr>node_id = fn_id func, node_data = FunctionData func\<rparr> g) Function)))
       (fn_calls func)"
proof -
  let ?g1 = "addNode \<lparr>node_id = fn_id func, node_data = FunctionData func\<rparr> g"
  let ?g2 = "addEdge \<lparr>edge_from = file, edge_to = fn_id func, edge_type = DEFINES\<rparr> ?g1"
  have n: "getNodesByType ?g2 Function = getNodesByType ?g1 Function"
    by (simp add: getNodesByType_def nodes_addEdge)
  have m: "callMatches = (\<lambda>call f. dataName (node_data f) = Some call \<or>
      includesStr (node_id f) (''::'' @ call))"
    by (intro ext) (simp add: callMatches_def)
  have e: "edges ?g2 = edges g @ [\<lparr>edge_from = file, edge_to = fn_id func, edge_type = DEFINES\<rparr>]"
    by (simp add: addEdge_def addNode_def)
  from fold_addCall[of "fn_id func" "fn_calls func" ?g2] show ?thesis
    unfolding addFunction_def n m e by (simp add: nodes_addEdge)
qed

text \<open>
  C7.  A call name is to be resolved to the Function node with that \<open>data.name\<close> (or, failing
  that, with the name as the part of the id after the namespace separator), and dropped
  when there is none.  The build does not do that, because its id test is
  \<open>f.id.includes(`::${call}`)\<close>, which also passes every id whose name part only begins with
  the call name.  In \<open>foobarGraph\<close> no function is named \<open>foo\<close> and no id ends with \<open>::foo\<close>, yet
  the call \<open>foo\<close> gets a CALLS edge to \<open>foobar\<close>.  In \<open>oneOnGraph\<close> the function \<open>on\<close> exists and
  is the only node that the rule selects, yet the call \<open>on\<close> gets its CALLS edge to \<open>one\<close>,
  which was inserted first.
\<close>

theorem call_resolution_failing_inputs:
  "edges (addFunction ''a.ts'' callerInfo foobarGraph) =
     [\<lparr>edge_from = ''a.ts'', edge_to = ''a.ts::foobar'', edge_type = DEFINES\<rparr>,
      \<lparr>edge_from = ''a.ts'', edge_to = ''a.ts::caller'', edge_type = DEFINES\<rparr>,
      \<lparr>edge_from = ''a.ts::caller'', edge_to = ''a.ts::foobar'', edge_type = CALLS\<rparr>] \<and>
   map node_id (filter (specCallMatches ''foo'')
      (getNodesByType (addFunction ''a.ts'' callerInfo foobarGraph) Function)) = [] \<and>
   edges (addFunction ''a.ts'' onCaller oneOnGraph) =
     [\<lparr>edge_from = ''a.ts'', edge_to = ''a.ts::one'', edge_type = DEFINES\<rparr>,
      \<lparr>edge_from = ''a.ts'', edge_to = ''a.ts::on'', edge_type = DEFINES\<rparr>,
      \<lparr>edge_from = ''a.ts'', edge_to = ''a.ts::caller'', edge_type = DEFINES\<rparr>,
      \<lparr>edge_from = ''a.ts::caller'', edge_to = ''a.ts::one'', edge_type = CALLS\<rparr>] \<and>
   map node_id (filter (specCallMatches ''on'')
      (getNodesByType (addFunction ''a.ts'' onCaller oneOnGraph) Function)) = [''a.ts::on'']"
  by (simp add: specCallMatches_def endsWith_def getNodesByType_def node_type_def
      foobarGraph_def callerInfo_def oneOnGraph_def onCaller_def addFunction_def addCall_def
      addEdge_def addNode_def emptyGraph_def callMatches_def)

section \<open>Theorems: QueryOrchestrator\<close>

lemma parse_hello: "parse ''hello world'' = None"
  by code_simp

lemma parse_blast: "parse ''blast radius of C'' = None"
  by code_simp






lemma facts_explainPhase: "facts (explainPhase env c q r) = facts r"
  by (simp add: explainPhase_def facts_def Let_def split: option.splits)

lemma facts_general:
  "available c1 = available c2 \<Longrightarrow>
     facts (handleGeneralQuery env g c1 q) = facts (handleGeneralQuery env g c2 q)"
  by (auto simp: available_def handleGeneralQuery_def facts_def Let_def split: option.splits)

lemma facts_planResult:
  assumes "plan_intent plan \<noteq> unknown \<or> available c1 = available c2"
  shows "facts (planResult env g c1 q plan) = facts (planResult env g c2 q plan)"
proof (cases "plan_intent plan = unknown")
  case True
  with assms have "available c1 = available c2" by simp
  from facts_general[OF this] True show ?thesis by (simp add: planResult_def)
next
  case False
  then show ?thesis by (cases "plan_intent plan") (simp_all add: planResult_def)
qed

text \<open>
  C1, as stated: the facts of the result are not the same for every behaviour of the
  collaborator.  The question \<open>hello world\<close> is not parsed and is planned as \<open>unknown\<close>;
  without a client the general fallback returns no file and an empty list of functions,
  with an enabled client (and a workspace folder) it returns the files it selected for
  reading and no list of functions.
\<close>

theorem enrichment_frame_counterexample:
  "facts (runQuery (planEnv \<lparr>plan_intent = unknown, functionName = None\<rparr>) oneFileGraph None
            ''hello world'') \<noteq>
   facts (runQuery (planEnv \<lparr>plan_intent = unknown, functionName = None\<rparr>) oneFileGraph
            (Some okClient) ''hello world'')"
  by (simp add: runQuery_def parse_hello parsedResult_def planEnv_def planResult_def
      handleGeneralQuery_def okClient_def isEnabled_def explainPhase_def facts_def Let_def)

lemma general_run:
  "generalQuery env g q \<Longrightarrow>
     facts (runQuery env g c q) = facts (handleGeneralQuery env g c q)"
  by (simp add: generalQuery_def runQuery_def Let_def facts_explainPhase planResult_def)

lemma general_unavailable:
  "\<not> available c \<Longrightarrow> facts (handleGeneralQuery env g c q) = ([], Some [], None)"
  by (cases c) (simp_all add: available_def handleGeneralQuery_def facts_def)

lemma general_no_workspace:
  "workspaceFolder env = None \<Longrightarrow> facts (handleGeneralQuery env g c q) = ([], Some [], None)"
  by (cases c) (simp_all add: handleGeneralQuery_def facts_def)

lemma general_selected:
  "available c \<Longrightarrow> workspaceFolder env = Some rootPath \<Longrightarrow>
     facts (handleGeneralQuery env g c q) = (selectedFiles env g, None, None)"
  by (cases c) (simp_all add: available_def handleGeneralQuery_def facts_def selectedFiles_def Let_def)

text \<open>
  C1, amended.  The files, functions and metadata of the result of \<open>runQuery\<close> are the same
  for two clients that are both available (present and enabled) or both not, whatever
  their service does (answer, answer nothing, throw); and for a question that does not end
  in the general fallback they are the same for any two clients, available or not: the
  explanation phase sets nothing but \<open>contextPreview\<close>.  For a question that ends in the
  general fallback the facts are: no file, an empty list of functions and no metadata when
  the client is not available or there is no workspace folder; the files selected for
  reading, no \<open>functions\<close> field and no metadata when the client is available and there is a
  workspace folder.
\<close>

theorem enrichment_frame:
  "(available c1 = available c2 \<or> \<not> generalQuery env g q \<longrightarrow>
      facts (runQuery env g c1 q) = facts (runQuery env g c2 q)) \<and>
   (generalQuery env g q \<and> (\<not> available c \<or> workspaceFolder env = None) \<longrightarrow>
      facts (runQuery env g c q) = ([], Some [], None)) \<and>
   (generalQuery env g q \<and> available c \<and> workspaceFolder env = Some rootPath \<longrightarrow>
      facts (runQuery env g c q) = (selectedFiles env g, None, None))"
proof (intro conjI impI)
  assume a: "available c1 = available c2 \<or> \<not> generalQuery env g q"
  show "facts (runQuery env g c1 q) = facts (runQuery env g c2 q)"
  proof (cases "parsedResult g (parse q)")
    case (Some r)
    then show ?thesis by (simp add: runQuery_def)
  next
    case None
    with a have "plan_intent (planner env q) \<noteq> unknown \<or> available c1 = available c2"
      by (auto simp: generalQuery_def)
    from facts_planResult[OF this] None show ?thesis
      by (simp add: runQuery_def Let_def facts_explainPhase)
  qed
next
  assume "generalQuery env g q \<and> (\<not> available c \<or> workspaceFolder env = None)"
  then show "facts (runQuery env g c q) = ([], Some [], None)"
    using general_run[of env g q c] general_unavailable[of c env g q]
      general_no_workspace[of env g c q] by auto
next
  assume "generalQuery env g q \<and> available c \<and> workspaceFolder env = Some rootPath"
  then show "facts (runQuery env g c q) = (selectedFiles env g, None, None)"
    using general_run[of env g q c] general_selected[of c env rootPath g q] by simp
qed

theorem enrichment_frame_witness:
  "\<not> generalQuery (planEnv \<lparr>plan_intent = blast_radius, functionName = Some ''C''\<rparr>) callChain
       ''blast radius of C'' \<and>
   facts (runQuery (planEnv \<lparr>plan_intent = blast_radius, functionName = Some ''C''\<rparr>) callChain
            None ''blast radius of C'') =
   facts (runQuery (planEnv \<lparr>plan_intent = blast_radius, functionName = Some ''C''\<rparr>) callChain
            (Some okClient) ''blast radius of C'') \<and>
   available (Some okClient) = available (Some failingClient) \<and>
   facts (runQuery (planEnv \<lparr>plan_intent = unknown, functionName = None\<rparr>) oneFileGraph
            (Some okClient) ''hello world'') =
   facts (runQuery (planEnv \<lparr>plan_intent = unknown, functionName = None\<rparr>) oneFileGraph
            (Some failingClient) ''hello world'') \<and>
   generalQuery (planEnv \<lparr>plan_intent = unknown, functionName = None\<rparr>) oneFileGraph
       ''hello world'' \<and>
   \<not> available None \<and>
   facts (runQuery (planEnv \<lparr>plan_intent = unknown, functionName = None\<rparr>) oneFileGraph
            None ''hello world'') = ([], Some [], None) \<and>
   generalQuery (noWorkspaceEnv \<lparr>plan_intent = unknown, functionName = None\<rparr>) oneFileGraph
       ''hello world'' \<and>
   workspaceFolder (noWorkspaceEnv \<lparr>plan_intent = unknown, functionName = None\<rparr>) = None \<and>
   facts (runQuery (noWorkspaceEnv \<lparr>plan_intent = unknown, functionName = None\<rparr>) oneFileGraph
            (Some okClient) ''hello world'') = ([], Some [], None) \<and>
   available (Some okClient) \<and>
   workspaceFolder (planEnv \<lparr>plan_intent = unknown, functionName = None\<rparr>) = Some ''/w'' \<and>
   facts (runQuery (planEnv \<lparr>plan_intent = unknown, functionName = None\<rparr>) oneFileGraph
            (Some okClient) ''hello world'') = ([''/w/a.ts''], None, None)"
proof -
  let ?u = "\<lparr>plan_intent = unknown, functionName = None\<rparr>"
  let ?b = "\<lparr>plan_intent = blast_radius, functionName = Some ''C''\<rparr>"
  have a: "\<not> generalQuery (planEnv ?b) callChain ''blast radius of C''"
    by (simp add: generalQuery_def planEnv_def)
  have b: "available (Some okClient) = available (Some failingClient)"
    by (simp add: available_def okClient_def failingClient_def isEnabled_def)
  have g1: "generalQuery (planEnv ?u) oneFileGraph ''hello world''"
    by (simp add: generalQuery_def planEnv_def parse_hello parsedResult_def)
  have g2: "generalQuery (noWorkspaceEnv ?u) oneFileGraph ''hello world''"
    by (simp add: generalQuery_def noWorkspaceEnv_def planEnv_def parse_hello parsedResult_def)
  have n: "\<not> available None" by (simp add: available_def)
  have ok: "available (Some okClient)"
    by (simp add: available_def okClient_def isEnabled_def)
  have w0: "workspaceFolder (noWorkspaceEnv ?u) = None"
    by (simp add: noWorkspaceEnv_def)
  have w1: "workspaceFolder (planEnv ?u) = Some ''/w''"
    by (simp add: planEnv_def)
  have sel: "selectedFiles (planEnv ?u) oneFileGraph = [''/w/a.ts'']"
    by (simp add: selectedFiles_def planEnv_def oneFileGraph_def addNode_def emptyGraph_def
        getNodesByType_def node_type_def setOrder_def List.map_filter_simps)
  note t1 = enrichment_frame[of None "Some okClient" "planEnv ?b" callChain
      "''blast radius of C''", THEN conjunct1]
  note t2 = enrichment_frame[of "Some okClient" "Some failingClient" "planEnv ?u" oneFileGraph
      "''hello world''", THEN conjunct1]
  note t3 = enrichment_frame[of _ _ "planEnv ?u" oneFileGraph "''hello world''" None,
      THEN conjunct2, THEN conjunct1]
  note t4 = enrichment_frame[of _ _ "noWorkspaceEnv ?u" oneFileGraph "''hello world''"
      "Some okClient", THEN conjunct2, THEN conjunct1]
  note t5 = enrichment_frame[of _ _ "planEnv ?u" oneFileGraph "''hello world''"
      "Some okClient" "''/w''", THEN conjunct2, THEN conjunct2]
  from a b g1 g2 n ok w0 w1 sel t1 t2 t3 t4 t5 show ?thesis by simp
qed







end
